theory Spec2Isabelle
  imports Main "HOL-Library.Char_ord" "HOL-Library.List_Lexorder" "HOL-Library.Multiset"
begin

section \<open>Go strings\<close>

text \<open>
  A Go string is a sequence of bytes, compared bytewise: \<^typ>\<open>string\<close> with the
  lexicographic order of \<open>List_Lexorder\<close> over the byte order of \<open>Char_ord\<close>.
  The functions of package \<open>strings\<close> that the optimizer calls are modelled on
  ASCII text: \<open>TrimSpace\<close> and \<open>ToUpper\<close> leave every byte from 0x80 on alone
  (Go decodes those as UTF-8 and consults the Unicode tables).
\<close>

definition ascii :: "string \<Rightarrow> bool" where
  "ascii s = (\<forall>c \<in> set s. (of_char c :: nat) < 128)"

definition isSpace :: "char \<Rightarrow> bool" where
  "isSpace c = (c = CHR 0x09 \<or> c = CHR 0x0A \<or> c = CHR 0x0B \<or> c = CHR 0x0C
                \<or> c = CHR 0x0D \<or> c = CHR '' '')"

definition TrimSpace :: "string \<Rightarrow> string" where
  "TrimSpace s = rev (dropWhile isSpace (rev (dropWhile isSpace s)))"

definition upperChar :: "char \<Rightarrow> char" where
  "upperChar c =
     (case map_of (zip ''abcdefghijklmnopqrstuvwxyz'' ''ABCDEFGHIJKLMNOPQRSTUVWXYZ'') c of
        Some u \<Rightarrow> u
      | None \<Rightarrow> c)"

definition ToUpper :: "string \<Rightarrow> string" where
  "ToUpper s = map upperChar s"

definition ToLower :: "string \<Rightarrow> string" where
  "ToLower s =
     map (\<lambda>c. case map_of (zip ''ABCDEFGHIJKLMNOPQRSTUVWXYZ'' ''abcdefghijklmnopqrstuvwxyz'') c of
                 Some l \<Rightarrow> l
               | None \<Rightarrow> c) s"

definition HasPrefix :: "string \<Rightarrow> string \<Rightarrow> bool" where
  "HasPrefix s p = (take (length p) s = p)"

definition HasSuffix :: "string \<Rightarrow> string \<Rightarrow> bool" where
  "HasSuffix s p = (length p \<le> length s \<and> drop (length s - length p) s = p)"

definition TrimPrefix :: "string \<Rightarrow> string \<Rightarrow> string" where
  "TrimPrefix s p = (if HasPrefix s p then drop (length p) s else s)"

fun Contains :: "string \<Rightarrow> string \<Rightarrow> bool" where
  "Contains [] sub = (sub = [])"
| "Contains (c # cs) sub = (HasPrefix (c # cs) sub \<or> Contains cs sub)"

text \<open>
  \<open>strings.Split(s, sep)\<close> for a separator of one byte, the only kind used here
  (\<open>","\<close> and \<open>"-"\<close>). The result is never empty: \<open>Split("", ",")\<close> is \<open>[""]\<close>.
\<close>

fun Split :: "string \<Rightarrow> char \<Rightarrow> string list" where
  "Split [] sep = [[]]"
| "Split (c # cs) sep =
     (if c = sep then [] # Split cs sep
      else (case Split cs sep of
              p # ps \<Rightarrow> (c # p) # ps
            | [] \<Rightarrow> [[c]]))"

fun Join :: "string list \<Rightarrow> string \<Rightarrow> string" where
  "Join [] sep = []"
| "Join [p] sep = p"
| "Join (p # q # ps) sep = p @ sep @ Join (q # ps) sep"

text \<open>\<open>s[:strings.Index(s, ":")]\<close> when the byte occurs in \<open>s\<close>.\<close>

definition beforeFirst :: "char \<Rightarrow> string \<Rightarrow> string" where
  "beforeFirst c s = takeWhile (\<lambda>x. x \<noteq> c) s"

fun itoa :: "nat \<Rightarrow> string" where
  "itoa n = (if n < 10 then [''0123456789'' ! n]
             else itoa (n div 10) @ [''0123456789'' ! (n mod 10)])"

section \<open>Data model\<close>

text \<open>
  \<open>type RuleType string\<close>: a rule type is any string; the constants below are the
  ones the source names.
\<close>

type_synonym RuleType = string

definition RuleTypeDomain :: RuleType where "RuleTypeDomain = ''DOMAIN''"
definition RuleTypeDomainSuffix :: RuleType where "RuleTypeDomainSuffix = ''DOMAIN-SUFFIX''"
definition RuleTypeDomainKeyword :: RuleType where "RuleTypeDomainKeyword = ''DOMAIN-KEYWORD''"
definition RuleTypeDomainWildcard :: RuleType where "RuleTypeDomainWildcard = ''DOMAIN-WILDCARD''"
definition RuleTypeDomainRegex :: RuleType where "RuleTypeDomainRegex = ''DOMAIN-REGEX''"
definition RuleTypeIPCIDR :: RuleType where "RuleTypeIPCIDR = ''IP-CIDR''"
definition RuleTypeIPCIDR6 :: RuleType where "RuleTypeIPCIDR6 = ''IP-CIDR6''"
definition RuleTypeSrcIPCIDR :: RuleType where "RuleTypeSrcIPCIDR = ''SRC-IP-CIDR''"
definition RuleTypeSrcIPCIDR6 :: RuleType where "RuleTypeSrcIPCIDR6 = ''SRC-IP-CIDR6''"
definition RuleTypeIPSuffix :: RuleType where "RuleTypeIPSuffix = ''IP-SUFFIX''"
definition RuleTypeSrcIPSuffix :: RuleType where "RuleTypeSrcIPSuffix = ''SRC-IP-SUFFIX''"
definition RuleTypeGeoIP :: RuleType where "RuleTypeGeoIP = ''GEOIP''"
definition RuleTypeSrcGeoIP :: RuleType where "RuleTypeSrcGeoIP = ''SRC-GEOIP''"
definition RuleTypeIPASN :: RuleType where "RuleTypeIPASN = ''IP-ASN''"
definition RuleTypeSrcIPASN :: RuleType where "RuleTypeSrcIPASN = ''SRC-IP-ASN''"
definition RuleTypeProcessName :: RuleType where "RuleTypeProcessName = ''PROCESS-NAME''"
definition RuleTypeProcessPath :: RuleType where "RuleTypeProcessPath = ''PROCESS-PATH''"
definition RuleTypeProcessNameRegex :: RuleType where
  "RuleTypeProcessNameRegex = ''PROCESS-NAME-REGEX''"
definition RuleTypeProcessPathRegex :: RuleType where
  "RuleTypeProcessPathRegex = ''PROCESS-PATH-REGEX''"
definition RuleTypeDstPort :: RuleType where "RuleTypeDstPort = ''DST-PORT''"
definition RuleTypeSrcPort :: RuleType where "RuleTypeSrcPort = ''SRC-PORT''"
definition RuleTypeInPort :: RuleType where "RuleTypeInPort = ''IN-PORT''"
definition RuleTypeGeoSite :: RuleType where "RuleTypeGeoSite = ''GEOSITE''"
definition RuleTypeNetwork :: RuleType where "RuleTypeNetwork = ''NETWORK''"
definition RuleTypeUid :: RuleType where "RuleTypeUid = ''UID''"
definition RuleTypeInType :: RuleType where "RuleTypeInType = ''IN-TYPE''"
definition RuleTypeInUser :: RuleType where "RuleTypeInUser = ''IN-USER''"
definition RuleTypeInName :: RuleType where "RuleTypeInName = ''IN-NAME''"
definition RuleTypeDSCP :: RuleType where "RuleTypeDSCP = ''DSCP''"
definition RuleTypeRuleSet :: RuleType where "RuleTypeRuleSet = ''RULE-SET''"
definition RuleTypeSubRules :: RuleType where "RuleTypeSubRules = ''SUB-RULE''"
definition RuleTypeMatch :: RuleType where "RuleTypeMatch = ''MATCH''"
definition RuleTypeFinal :: RuleType where "RuleTypeFinal = ''FINAL''"

text \<open>The constants of the \<open>const\<close> block, in the order of the source.\<close>

definition ruleTypeVocabulary :: "RuleType list" where
  "ruleTypeVocabulary =
     [RuleTypeDomain, RuleTypeDomainSuffix, RuleTypeDomainKeyword, RuleTypeDomainWildcard,
      RuleTypeDomainRegex,
      RuleTypeIPCIDR, RuleTypeIPCIDR6, RuleTypeSrcIPCIDR, RuleTypeSrcIPCIDR6, RuleTypeIPSuffix,
      RuleTypeSrcIPSuffix, RuleTypeGeoIP, RuleTypeSrcGeoIP, RuleTypeIPASN, RuleTypeSrcIPASN,
      RuleTypeProcessName, RuleTypeProcessPath, RuleTypeProcessNameRegex,
      RuleTypeProcessPathRegex,
      RuleTypeDstPort, RuleTypeSrcPort, RuleTypeInPort,
      RuleTypeGeoSite, RuleTypeNetwork, RuleTypeUid, RuleTypeInType, RuleTypeInUser,
      RuleTypeInName, RuleTypeDSCP, RuleTypeRuleSet, RuleTypeSubRules, RuleTypeMatch,
      RuleTypeFinal]"

record Rule =
  Type :: RuleType
  Payload :: string
  Options :: string

record RuleSet =
  Name :: string
  Rules :: "RuleType \<rightharpoonup> string list"
  Filters :: "string list"
  Excludes :: "string list"

record Optimizer =
  ruleSets :: "string \<rightharpoonup> RuleSet"

datatype error =
  MalformedLine string
| OpenFailed string
| UnknownRuleSet string

definition NewOptimizer :: Optimizer where
  "NewOptimizer = \<lparr>ruleSets = Map.empty\<rparr>"

section \<open>ParseRule\<close>

text \<open>
  \<open>Inr None\<close> is the source's \<open>return nil, nil\<close> (the line is skipped),
  \<open>Inr (Some r)\<close> a rule, \<open>Inl (MalformedLine line)\<close> the
  \<open>fmt.Errorf("invalid rule format: %s", line)\<close> of the source.
\<close>

definition isComment :: "string \<Rightarrow> bool" where
  "isComment line = (HasPrefix line ''#'' \<or> HasPrefix line '';'' \<or> HasPrefix line ''//''
                     \<or> HasPrefix line ''---'')"

definition isYamlField :: "string \<Rightarrow> bool" where
  "isYamlField line =
     (Contains line '':'' \<and> \<not> Contains line '','' \<and>
      (let beforeColon = TrimSpace (beforeFirst CHR '':'' line)
       in \<not> Contains beforeColon '' '' \<and> \<not> Contains beforeColon '',''))"

definition isFileName :: "string \<Rightarrow> bool" where
  "isFileName line = (HasSuffix line ''.list'' \<or> HasSuffix line ''.yaml''
                      \<or> HasSuffix line ''.txt'' \<or> HasSuffix line ''.conf'')"

definition splitRule :: "string \<Rightarrow> error + Rule option" where
  "splitRule line =
     (let parts = Split line CHR '',''
      in if length parts < 2 then Inl (MalformedLine line)
         else Inr (Some \<lparr>Type = ToUpper (TrimSpace (parts ! 0)),
                          Payload = TrimSpace (parts ! 1),
                          Options = (if length parts > 2 then TrimSpace (parts ! 2) else [])\<rparr>))"

definition parseStripped :: "string \<Rightarrow> error + Rule option" where
  "parseStripped line =
     (if isYamlField line then Inr None
      else if \<not> Contains line '','' then Inr None
      else if isFileName line then Inr None
      else splitRule line)"

definition ParseRule :: "string \<Rightarrow> error + Rule option" where
  "ParseRule raw =
     (let line = TrimSpace raw
      in if line = [] then Inr None
         else if isComment line then Inr None
         else if HasPrefix line ''-''
              then (let line' = TrimSpace (drop 1 line)
                    in if line' = [] then Inr None else parseStripped line')
              else parseStripped line)"

section \<open>Rule store\<close>

definition storedPayload :: "Rule \<Rightarrow> string" where
  "storedPayload rule =
     (if Options rule \<noteq> [] then Payload rule @ '','' @ Options rule else Payload rule)"

definition rulesOf :: "RuleSet \<Rightarrow> RuleType \<Rightarrow> string list" where
  "rulesOf rs t = (case Rules rs t of None \<Rightarrow> [] | Some xs \<Rightarrow> xs)"

definition addRule :: "Rule \<Rightarrow> RuleSet \<Rightarrow> RuleSet" where
  "addRule rule rs = rs\<lparr>Rules := (Rules rs)(Type rule \<mapsto> rulesOf rs (Type rule) @ [storedPayload rule])\<rparr>"

text \<open>One turn of the scanner loop: an error or a skipped line leaves the rule-set alone.\<close>

definition loadLine :: "RuleSet \<Rightarrow> string \<Rightarrow> RuleSet" where
  "loadLine rs text =
     (case ParseRule text of
        Inl err \<Rightarrow> rs
      | Inr None \<Rightarrow> rs
      | Inr (Some rule) \<Rightarrow> addRule rule rs)"

text \<open>
  The file system is a map from a path to the lines the scanner yields for that file;
  a path outside its domain cannot be opened.
\<close>

definition LoadRuleFile ::
  "(string \<rightharpoonup> string list) \<Rightarrow> string \<Rightarrow> string \<Rightarrow> Optimizer \<Rightarrow> error + Optimizer" where
  "LoadRuleFile fs filePath ruleSetName opt =
     (case fs filePath of
        None \<Rightarrow> Inl (OpenFailed filePath)
      | Some lines \<Rightarrow>
          (let rs0 = (case ruleSets opt ruleSetName of
                        None \<Rightarrow> \<lparr>Name = ruleSetName, Rules = Map.empty, Filters = [], Excludes = []\<rparr>
                      | Some rs \<Rightarrow> rs)
           in Inr (opt\<lparr>ruleSets := (ruleSets opt)(ruleSetName \<mapsto> foldl loadLine rs0 lines)\<rparr>)))"

definition SetRulesetFilters ::
  "string \<Rightarrow> string list \<Rightarrow> string list \<Rightarrow> Optimizer \<Rightarrow> error + Optimizer" where
  "SetRulesetFilters ruleSetName filters excludes opt =
     (case ruleSets opt ruleSetName of
        None \<Rightarrow> Inl (UnknownRuleSet ruleSetName)
      | Some rs \<Rightarrow>
          Inr (opt\<lparr>ruleSets := (ruleSets opt)(ruleSetName \<mapsto> rs\<lparr>Filters := filters, Excludes := excludes\<rparr>)\<rparr>))"

section \<open>Sorting\<close>

text \<open>
  \<open>sort.Slice\<close> and \<open>sort.Strings\<close> belong to Go's standard library. On a slice of
  at most 12 elements both run the insertion sort below (\<open>insertionSort_func\<close>:
  each element in turn moves left while the caller's \<open>less\<close>, here \<open>lt\<close>, puts it
  before its left neighbour); a longer slice goes through pattern-defeating quicksort,
  which returns some permutation that is sorted when \<open>lt\<close> is a strict weak order. \<open>sink lt x acc\<close> places \<open>x\<close>
  into \<open>acc\<close>, which holds the elements already visited, last one first.
\<close>

fun sink :: "('a \<Rightarrow> 'a \<Rightarrow> bool) \<Rightarrow> 'a \<Rightarrow> 'a list \<Rightarrow> 'a list" where
  "sink lt x [] = [x]"
| "sink lt x (y # ys) = (if lt x y then y # sink lt x ys else x # y # ys)"

definition sort_Slice :: "('a \<Rightarrow> 'a \<Rightarrow> bool) \<Rightarrow> 'a list \<Rightarrow> 'a list" where
  "sort_Slice lt xs = rev (foldl (\<lambda>acc x. sink lt x acc) [] xs)"

definition sort_Strings :: "string list \<Rightarrow> string list" where
  "sort_Strings xs = sort_Slice (<) xs"

text \<open>
  What \<open>sort.Slice\<close> promises of its result: the elements of the input, none of them
  put by the comparator before an element that precedes it. The promise stands for
  comparators that are strict weak orders.
\<close>

definition sortedBy :: "('a \<Rightarrow> 'a \<Rightarrow> bool) \<Rightarrow> 'a list \<Rightarrow> bool" where
  "sortedBy lt ys = sorted_wrt (\<lambda>a b. \<not> lt b a) ys"

text \<open>
  A strict weak order: asymmetric, with transitive incomparability.
\<close>

definition strictWeakOrder :: "('a \<Rightarrow> 'a \<Rightarrow> bool) \<Rightarrow> bool" where
  "strictWeakOrder lt = ((\<forall>a b. lt a b \<longrightarrow> \<not> lt b a)
                          \<and> (\<forall>a b c. \<not> lt a b \<and> \<not> lt b c \<longrightarrow> \<not> lt a c))"

text \<open>
  \<open>fmt.Sscanf(mask, "%d", &maskLen)\<close> with \<open>maskLen\<close> initially 0, on ASCII text:
  leading blanks are skipped (a newline there is an error), a sign is accepted, then
  the longest run of the digits \<open>0\<close> to \<open>9\<close> is read; an empty run or a value outside
  64 bits is an error, and an error leaves \<open>maskLen\<close> at 0. Text after the number,
  an underscore too, is ignored.
\<close>

definition isDigit :: "char \<Rightarrow> bool" where
  "isDigit c = (c \<in> set ''0123456789'')"

definition decimal :: "string \<Rightarrow> int" where
  "decimal ds = foldl (\<lambda>acc c. acc * 10 + (int (of_char c) - 48)) 0 ds"

definition Sscanf_d :: "string \<Rightarrow> int" where
  "Sscanf_d s =
     (let s1 = dropWhile (\<lambda>c. isSpace c \<and> c \<noteq> CHR 0x0A) s;
          neg = HasPrefix s1 ''-'';
          s2 = (if HasPrefix s1 ''-'' \<or> HasPrefix s1 ''+'' then drop 1 s1 else s1);
          tok = takeWhile isDigit s2;
          v = (if neg then - decimal tok else decimal tok)
      in if tok = [] then 0
         else if v < - (2 ^ 63) \<or> 2 ^ 63 - 1 < v then 0
         else v)"

definition extractCIDRMask :: "string \<Rightarrow> int" where
  "extractCIDRMask cidr =
     (let parts = Split cidr CHR '','';
          cidrPart = parts ! 0
      in if Contains cidrPart ''/''
         then Sscanf_d (drop 1 (dropWhile (\<lambda>c. c \<noteq> CHR ''/'') cidrPart))
         else if Contains cidrPart '':'' then 128
         else 32)"

definition normalizeCIDR :: "string \<Rightarrow> string" where
  "normalizeCIDR rule =
     (let parts = Split rule CHR '','';
          cidrPart = parts ! 0
      in if Contains cidrPart ''/'' then rule
         else (let defaultMask = (if Contains cidrPart '':'' then ''/128'' else ''/32'')
               in Join (parts[0 := cidrPart @ defaultMask]) '',''))"

subsection \<open>The comparators of sortRulesByType\<close>

definition lengthLess :: "string \<Rightarrow> string \<Rightarrow> bool" where
  "lengthLess a b = (if length a \<noteq> length b then length a < length b else a < b)"

definition suffixLess :: "string \<Rightarrow> string \<Rightarrow> bool" where
  "suffixLess a b =
     (let lenI = length a; lenJ = length b;
          shortI = (lenI \<ge> 2 \<and> lenI \<le> 5);
          shortJ = (lenJ \<ge> 2 \<and> lenJ \<le> 5)
      in if shortI \<noteq> shortJ then shortI
         else if lenI \<noteq> lenJ then lenI < lenJ
         else a < b)"

definition cidrLess :: "string \<Rightarrow> string \<Rightarrow> bool" where
  "cidrLess a b =
     (let maskI = extractCIDRMask a; maskJ = extractCIDRMask b
      in if maskI \<noteq> maskJ then maskI > maskJ else a < b)"

definition portStart :: "string \<Rightarrow> string" where
  "portStart rule = Split rule CHR ''-'' ! 0"

definition portLess :: "string \<Rightarrow> string \<Rightarrow> bool" where
  "portLess a b = (portStart a < portStart b)"

definition asnLess :: "string \<Rightarrow> string \<Rightarrow> bool" where
  "asnLess a b = (TrimPrefix a ''AS'' < TrimPrefix b ''AS'')"

definition priorityLess :: "(string \<times> nat) list \<Rightarrow> string \<Rightarrow> string \<Rightarrow> bool" where
  "priorityLess priority a b =
     (case (map_of priority (ToLower a), map_of priority (ToLower b)) of
        (Some pi, Some pj) \<Rightarrow> if pi \<noteq> pj then pi < pj else a < b
      | _ \<Rightarrow> a < b)"

definition cidrTypes :: "RuleType list" where
  "cidrTypes = [RuleTypeIPCIDR, RuleTypeIPCIDR6, RuleTypeSrcIPCIDR, RuleTypeSrcIPCIDR6,
                RuleTypeIPSuffix, RuleTypeSrcIPSuffix]"

definition portTypes :: "RuleType list" where
  "portTypes = [RuleTypeDstPort, RuleTypeSrcPort, RuleTypeInPort]"

definition sortRulesByType :: "RuleType \<Rightarrow> string list \<Rightarrow> string list" where
  "sortRulesByType ruleType rules =
     (if ruleType = RuleTypeDomain then sort_Slice lengthLess rules
      else if ruleType = RuleTypeDomainSuffix then sort_Slice suffixLess rules
      else if ruleType \<in> set [RuleTypeDomainKeyword, RuleTypeDomainWildcard]
        then sort_Slice lengthLess rules
      else if ruleType \<in> set [RuleTypeDomainRegex, RuleTypeProcessNameRegex,
                                  RuleTypeProcessPathRegex]
        then sort_Slice lengthLess rules
      else if ruleType \<in> set cidrTypes then sort_Slice cidrLess (map normalizeCIDR rules)
      else if ruleType \<in> set [RuleTypeProcessName, RuleTypeProcessPath]
        then sort_Slice lengthLess rules
      else if ruleType \<in> set portTypes then sort_Slice portLess rules
      else if ruleType \<in> set [RuleTypeGeoIP, RuleTypeSrcGeoIP, RuleTypeGeoSite]
        then sort_Strings rules
      else if ruleType \<in> set [RuleTypeIPASN, RuleTypeSrcIPASN] then sort_Slice asnLess rules
      else if ruleType = RuleTypeNetwork
        then sort_Slice (priorityLess [(''tcp'', 1), (''udp'', 2), (''icmp'', 3)]) rules
      else if ruleType = RuleTypeInType
        then sort_Slice (priorityLess [(''http'', 1), (''https'', 2), (''socks5'', 3)]) rules
      else if ruleType \<in> set [RuleTypeUid, RuleTypeDSCP, RuleTypeInUser, RuleTypeInName]
        then sort_Strings rules
      else sort_Strings rules)"

section \<open>Deduplicate\<close>

text \<open>
  The source collects the entries of a sequence as the keys of a map and reads them back
  with \<open>range\<close>, in an order Go leaves unspecified. \<open>iter name t rules\<close> is the order in
  which that loop yields the keys for the sequence \<open>rules\<close> of type \<open>t\<close> in rule-set
  \<open>name\<close>; \<open>mapIteration iter\<close> says that it yields every distinct entry once.
\<close>

type_synonym iteration = "string \<Rightarrow> RuleType \<Rightarrow> string list \<Rightarrow> string list"

definition mapIteration :: "iteration \<Rightarrow> bool" where
  "mapIteration iter = (\<forall>name t rules. distinct (iter name t rules) \<and> set (iter name t rules) = set rules)"

definition firstSeen :: iteration where
  "firstSeen name t rules = remdups rules"

definition lastSeenFirst :: iteration where
  "lastSeenFirst name t rules = rev (remdups rules)"

definition dedupRules :: "iteration \<Rightarrow> string \<Rightarrow> RuleType \<Rightarrow> string list \<Rightarrow> string list" where
  "dedupRules iter name ruleType rules = sortRulesByType ruleType (iter name ruleType rules)"

definition dedupRuleSet :: "iteration \<Rightarrow> string \<Rightarrow> RuleSet \<Rightarrow> RuleSet" where
  "dedupRuleSet iter name rs =
     rs\<lparr>Rules := (\<lambda>ruleType. map_option (dedupRules iter name ruleType) (Rules rs ruleType))\<rparr>"

definition Deduplicate :: "iteration \<Rightarrow> Optimizer \<Rightarrow> Optimizer" where
  "Deduplicate iter opt =
     opt\<lparr>ruleSets := (\<lambda>name. map_option (dedupRuleSet iter name) (ruleSets opt name))\<rparr>"

section \<open>Filters and excludes\<close>

text \<open>
  \<open>doublestar.Match\<close> is an external library: the matcher is a parameter, returning
  \<open>Inr m\<close> for the source's \<open>(m, nil)\<close> and \<open>Inl ErrBadPattern\<close> for an error.
\<close>

datatype glob_error = ErrBadPattern

type_synonym matcher = "string \<Rightarrow> string \<Rightarrow> glob_error + bool"

definition fullRule :: "RuleType \<Rightarrow> string \<Rightarrow> string" where
  "fullRule ruleType rule = ruleType @ '','' @ rule"

text \<open>
  The inner loop over the patterns: an empty pattern is passed over, the first pattern
  that matches without error ends the loop.
\<close>

fun anyPattern :: "matcher \<Rightarrow> string list \<Rightarrow> string \<Rightarrow> bool" where
  "anyPattern match [] full = False"
| "anyPattern match (p # ps) full =
     (if p = [] then anyPattern match ps full
      else (case match p full of
              Inr True \<Rightarrow> True
            | _ \<Rightarrow> anyPattern match ps full))"

definition applyRuleFilters ::
  "matcher \<Rightarrow> string list \<Rightarrow> RuleType \<Rightarrow> string list \<Rightarrow> string list \<Rightarrow> string list" where
  "applyRuleFilters match rules ruleType filters excludes =
     (if length rules = 0 then rules
      else
        (let result = rules;
             result = (if length filters > 0
                       then filter (\<lambda>rule. anyPattern match filters (fullRule ruleType rule)) result
                       else result);
             result = (if length excludes > 0
                       then filter (\<lambda>rule. \<not> anyPattern match excludes (fullRule ruleType rule)) result
                       else result)
         in result))"

section \<open>Export\<close>

text \<open>
  Every exporter writes a YAML file and a plain-text file; the model returns the two
  contents, YAML first. Failures of the file system are not modelled. A file is the
  concatenation of the \<open>fmt.Fprintf\<close> calls of the source.
\<close>

definition placeholder :: string where
  "placeholder =
     [CHR 0x23, CHR 0x20,
      CHR 0xE6, CHR 0x97, CHR 0xA0, CHR 0xE8, CHR 0xA7, CHR 0x84, CHR 0xE5, CHR 0x88, CHR 0x99,
      CHR 0xE5, CHR 0x86, CHR 0x85, CHR 0xE5, CHR 0xAE, CHR 0xB9, CHR 0xEF, CHR 0xBC, CHR 0x8C,
      CHR 0xE8, CHR 0x87, CHR 0xAA, CHR 0xE5, CHR 0x8A, CHR 0xA8, CHR 0xE7, CHR 0x94, CHR 0x9F,
      CHR 0xE6, CHR 0x88, CHR 0x90, CHR 0xE5, CHR 0x8D, CHR 0xA0, CHR 0xE4, CHR 0xBD, CHR 0x8D,
      CHR 0x0A]"

definition yamlItem :: "string \<Rightarrow> string" where
  "yamlItem rule = ''  - '' @ [CHR 0x27] @ rule @ [CHR 0x27, CHR 0x0A]"

definition listItem :: "string \<Rightarrow> string" where
  "listItem rule = rule @ [CHR 0x0A]"

text \<open>The rewrite of one DOMAIN-SUFFIX entry in \<open>exportDomain\<close>.\<close>

definition suffixEntry :: "string \<Rightarrow> string" where
  "suffixEntry rule =
     (if HasPrefix rule ''+.'' then rule
      else if HasPrefix rule ''.'' then ''+'' @ rule
      else ''+.'' @ rule)"

definition domainRules :: "matcher \<Rightarrow> RuleSet \<Rightarrow> string list" where
  "domainRules match ruleSet =
     (case Rules ruleSet RuleTypeDomain of
        Some rules \<Rightarrow> applyRuleFilters match rules RuleTypeDomain (Filters ruleSet) (Excludes ruleSet)
      | None \<Rightarrow> [])
     @
     (case Rules ruleSet RuleTypeDomainSuffix of
        Some rules \<Rightarrow>
          map suffixEntry
            (applyRuleFilters match rules RuleTypeDomainSuffix (Filters ruleSet) (Excludes ruleSet))
      | None \<Rightarrow> [])"

definition writePayload :: "string list \<Rightarrow> string \<times> string" where
  "writePayload rules =
     (if length rules = 0 then (placeholder @ ''payload: []'' @ [CHR 0x0A], placeholder)
      else (''payload:'' @ [CHR 0x0A] @ concat (map yamlItem rules), concat (map listItem rules)))"

definition exportDomain :: "matcher \<Rightarrow> RuleSet \<Rightarrow> string \<times> string" where
  "exportDomain match ruleSet = writePayload (domainRules match ruleSet)"

text \<open>Dropping the \<open>no-resolve\<close> parts of an entry, as both IP exporters do.\<close>

definition stripNoResolve :: "string \<Rightarrow> string" where
  "stripNoResolve rule =
     Join (filter (\<lambda>part. TrimSpace part \<noteq> ''no-resolve'') (Split rule CHR '','')) '',''"

definition ipcidrRules :: "matcher \<Rightarrow> RuleSet \<Rightarrow> string list" where
  "ipcidrRules match ruleSet =
     concat (map (\<lambda>ruleType.
        case Rules ruleSet ruleType of
          None \<Rightarrow> []
        | Some rules \<Rightarrow>
            if length rules = 0 then []
            else map stripNoResolve
                   (applyRuleFilters match rules ruleType (Filters ruleSet) (Excludes ruleSet)))
       [RuleTypeIPCIDR, RuleTypeIPCIDR6])"

definition exportIPCIDR :: "matcher \<Rightarrow> RuleSet \<Rightarrow> string \<times> string" where
  "exportIPCIDR match ruleSet = writePayload (ipcidrRules match ruleSet)"

definition orderedTypes :: "RuleType list" where
  "orderedTypes =
     [RuleTypeDomain, RuleTypeDomainSuffix, RuleTypeDomainKeyword, RuleTypeDomainWildcard,
      RuleTypeDomainRegex,
      RuleTypeIPCIDR, RuleTypeIPCIDR6, RuleTypeSrcIPCIDR, RuleTypeSrcIPCIDR6, RuleTypeIPSuffix,
      RuleTypeSrcIPSuffix, RuleTypeIPASN, RuleTypeSrcIPASN,
      RuleTypeGeoIP, RuleTypeSrcGeoIP, RuleTypeGeoSite,
      RuleTypeProcessName, RuleTypeProcessPath, RuleTypeProcessNameRegex,
      RuleTypeProcessPathRegex,
      RuleTypeDstPort, RuleTypeSrcPort, RuleTypeInPort,
      RuleTypeNetwork, RuleTypeUid, RuleTypeInType, RuleTypeInUser, RuleTypeInName, RuleTypeDSCP,
      RuleTypeRuleSet, RuleTypeSubRules]"

definition domainListTypes :: "RuleType list" where
  "domainListTypes = [RuleTypeDomain, RuleTypeDomainSuffix]"

definition ipcidrListTypes :: "RuleType list" where
  "ipcidrListTypes = [RuleTypeIPCIDR, RuleTypeIPCIDR6]"

definition processedRule :: "RuleType \<Rightarrow> bool \<Rightarrow> string \<Rightarrow> string" where
  "processedRule ruleType withNoResolve rule =
     (if ruleType = RuleTypeIPCIDR \<or> ruleType = RuleTypeIPCIDR6
      then (if withNoResolve
            then (if \<not> Contains rule ''no-resolve'' then rule @ '',no-resolve'' else rule)
            else stripNoResolve rule)
      else rule)"

text \<open>
  The entries that \<open>exportClassical\<close> emits for one type of \<open>orderedTypes\<close>, after the
  exclusions and the filters, before the \<open>no-resolve\<close> rewrite; empty when the type is
  passed over.
\<close>

definition classicalFiltered :: "matcher \<Rightarrow> RuleSet \<Rightarrow> bool \<Rightarrow> bool \<Rightarrow> RuleType \<Rightarrow> string list" where
  "classicalFiltered match ruleSet includeAll withNoResolve ruleType =
     (case Rules ruleSet ruleType of
        None \<Rightarrow> []
      | Some rules \<Rightarrow>
          if length rules = 0 then []
          else if \<not> includeAll \<and> ruleType \<in> set domainListTypes then []
          else if \<not> includeAll \<and> ruleType \<in> set ipcidrListTypes \<and> \<not> withNoResolve then []
          else applyRuleFilters match rules ruleType (Filters ruleSet) (Excludes ruleSet))"

definition classicalSection ::
  "matcher \<Rightarrow> RuleSet \<Rightarrow> bool \<Rightarrow> bool \<Rightarrow> RuleType \<Rightarrow> string \<times> string" where
  "classicalSection match ruleSet includeAll withNoResolve ruleType =
     (let filtered = classicalFiltered match ruleSet includeAll withNoResolve ruleType;
          count = '' ('' @ itoa (length filtered) @ '' rules)'' @ [CHR 0x0A]
      in if length filtered = 0 then ([], [])
         else ([CHR 0x0A] @ ''  # '' @ ruleType @ count
                 @ concat (map (\<lambda>rule. yamlItem (ruleType @ '','' @ processedRule ruleType withNoResolve rule)) filtered),
               [CHR 0x0A] @ ''# '' @ ruleType @ count
                 @ concat (map (\<lambda>rule. listItem (ruleType @ '','' @ processedRule ruleType withNoResolve rule)) filtered)))"

definition classicalHeader :: "RuleSet \<Rightarrow> bool \<Rightarrow> bool \<Rightarrow> string" where
  "classicalHeader ruleSet includeAll withNoResolve =
     (if includeAll
      then ''# '' @ Name ruleSet @ '' - Classical Format (All Rules)'' @ [CHR 0x0A]
           @ ''# Includes all rule types'' @ [CHR 0x0A]
      else ''# '' @ Name ruleSet @ '' - Classical Format (Other Rules)'' @ [CHR 0x0A]
           @ ''# Excludes rules that can use domain.list (DOMAIN/DOMAIN-SUFFIX)'' @ [CHR 0x0A]
           @ ''# and ipcidr.list (IP-CIDR/IP-CIDR6)'' @ [CHR 0x0A])
     @ (if withNoResolve
        then ''# IP-CIDR rules include '' @ [CHR 0x27] @ ''no-resolve'' @ [CHR 0x27] @ '' parameter'' @ [CHR 0x0A]
        else ''# IP-CIDR rules exclude '' @ [CHR 0x27] @ ''no-resolve'' @ [CHR 0x27] @ '' parameter'' @ [CHR 0x0A])
     @ ''# Rules are optimized and sorted for best performance'' @ [CHR 0x0A]"

definition exportClassical :: "matcher \<Rightarrow> RuleSet \<Rightarrow> bool \<Rightarrow> bool \<Rightarrow> string \<times> string" where
  "exportClassical match ruleSet includeAll withNoResolve =
     (let sections = map (classicalSection match ruleSet includeAll withNoResolve) orderedTypes;
          totalRules = sum_list (map (\<lambda>ruleType. length (classicalFiltered match ruleSet includeAll withNoResolve ruleType)) orderedTypes);
          header = classicalHeader ruleSet includeAll withNoResolve
      in (header @ ''payload:'' @ [CHR 0x0A] @ concat (map fst sections)
            @ (if totalRules = 0 then ''  '' @ placeholder else []),
          header @ concat (map snd sections)
            @ (if totalRules = 0 then placeholder else [])))"

text \<open>
  The files of one rule-set, by name inside the rule-set's directory, in the order in
  which \<open>Export\<close> writes them.
\<close>

definition exportRuleSet :: "matcher \<Rightarrow> RuleSet \<Rightarrow> (string \<times> string) list" where
  "exportRuleSet match ruleSet =
     (let file = (\<lambda>kind out. [(Name ruleSet @ kind @ ''.yaml'', fst out),
                                (Name ruleSet @ kind @ ''.list'', snd out)])
      in file ''_domain'' (exportDomain match ruleSet)
         @ file ''_ipcidr'' (exportIPCIDR match ruleSet)
         @ file ''_classical'' (exportClassical match ruleSet False False)
         @ file ''_classical_no_resolve'' (exportClassical match ruleSet False True)
         @ file ''_classical_all'' (exportClassical match ruleSet True False)
         @ file ''_classical_all_no_resolve'' (exportClassical match ruleSet True True))"

text \<open>\<open>Export\<close>: for every rule-set of the optimizer, the files of its directory.\<close>

definition Export :: "matcher \<Rightarrow> Optimizer \<Rightarrow> string \<rightharpoonup> (string \<times> string) list" where
  "Export match opt = (\<lambda>name. map_option (exportRuleSet match) (ruleSets opt name))"

text \<open>The lines of a file, and those of them that are rules (neither empty nor comments).\<close>

definition fileLines :: "string \<Rightarrow> string list" where
  "fileLines content = Split content CHR 0x0A"

definition ruleLines :: "string \<Rightarrow> string list" where
  "ruleLines content = filter (\<lambda>l. l \<noteq> [] \<and> \<not> HasPrefix l ''#'') (fileLines content)"

section \<open>Example inputs\<close>

text \<open>
  A matcher without metacharacters, where a pattern matches exactly itself, as
  \<open>doublestar.Match\<close> does on patterns free of metacharacters.
\<close>

definition literalMatch :: matcher where
  "literalMatch pattern name = Inr (pattern = name)"

text \<open>The file of the end-to-end example of the specification.\<close>

definition exampleFiles :: "string \<rightharpoonup> string list" where
  "exampleFiles =
     [''rules.list'' \<mapsto> [''IP-CIDR,1.2.3.0/24'', ''IP-CIDR,1.2.3.0/24'',
                           ''DOMAIN-SUFFIX,.example.com'']]"

text \<open>An address given once bare and once with its mask.\<close>

definition maskFiles :: "string \<rightharpoonup> string list" where
  "maskFiles = [''rules.list'' \<mapsto> [''IP-CIDR,1.2.3.4'', ''IP-CIDR,1.2.3.4/32'']]"

text \<open>A rule-set that ends in a catch-all rule.\<close>

definition matchFiles :: "string \<rightharpoonup> string list" where
  "matchFiles = [''rules.list'' \<mapsto> [''MATCH,DIRECT'', ''FINAL,DIRECT'']]"

text \<open>A rule-set of port rules and one of address rules, both with a repeated entry.\<close>

definition portsOptimizer :: Optimizer where
  "portsOptimizer =
     \<lparr>ruleSets = [''ports'' \<mapsto> \<lparr>Name = ''ports'',
         Rules = [''DST-PORT'' \<mapsto> [''20-30'', ''100-200'', ''80'', ''20-30'']],
         Filters = [], Excludes = []\<rparr>]\<rparr>"

definition cidrOptimizer :: Optimizer where
  "cidrOptimizer =
     \<lparr>ruleSets = [''lan'' \<mapsto> \<lparr>Name = ''lan'',
         Rules = [''IP-CIDR'' \<mapsto> [''10.0.0.0/8'', ''1.2.3.4'', ''192.168.0.0/16,no-resolve'', ''1.2.3.4'']],
         Filters = [], Excludes = []\<rparr>]\<rparr>"

text \<open>The rule-sets that \<open>matchFiles\<close> and \<open>exampleFiles\<close> give after \<open>Deduplicate\<close>.\<close>

definition matchRuleSet :: RuleSet where
  "matchRuleSet = \<lparr>Name = ''test'',
      Rules = [''MATCH'' \<mapsto> [''DIRECT''], ''FINAL'' \<mapsto> [''DIRECT'']],
      Filters = [], Excludes = []\<rparr>"

definition exampleRuleSet :: RuleSet where
  "exampleRuleSet = \<lparr>Name = ''test'',
      Rules = [''IP-CIDR'' \<mapsto> [''1.2.3.0/24''], ''DOMAIN-SUFFIX'' \<mapsto> [''.example.com'']],
      Filters = [], Excludes = []\<rparr>"

section \<open>Lemmas on strings\<close>

lemmas RuleType_defs =
  RuleTypeDomain_def RuleTypeDomainSuffix_def RuleTypeDomainKeyword_def
  RuleTypeDomainWildcard_def RuleTypeDomainRegex_def RuleTypeIPCIDR_def RuleTypeIPCIDR6_def
  RuleTypeSrcIPCIDR_def RuleTypeSrcIPCIDR6_def RuleTypeIPSuffix_def RuleTypeSrcIPSuffix_def
  RuleTypeGeoIP_def RuleTypeSrcGeoIP_def RuleTypeIPASN_def RuleTypeSrcIPASN_def
  RuleTypeProcessName_def RuleTypeProcessPath_def RuleTypeProcessNameRegex_def
  RuleTypeProcessPathRegex_def RuleTypeDstPort_def RuleTypeSrcPort_def RuleTypeInPort_def
  RuleTypeGeoSite_def RuleTypeNetwork_def RuleTypeUid_def RuleTypeInType_def
  RuleTypeInUser_def RuleTypeInName_def RuleTypeDSCP_def RuleTypeRuleSet_def
  RuleTypeSubRules_def RuleTypeMatch_def RuleTypeFinal_def

lemma Contains_single: "Contains s [c] = (c \<in> set s)"
  by (induction s) (auto simp: HasPrefix_def)

lemma Split_not_empty: "Split s sep \<noteq> []"
  by (induction s) (auto split: list.splits)

lemma Split_length: "sep \<in> set s \<Longrightarrow> 2 \<le> length (Split s sep)"
proof (induction s)
  case Nil
  then show ?case by simp
next
  case (Cons c cs)
  show ?case
  proof (cases "c = sep")
    case True
    have "1 \<le> length (Split cs sep)"
      using Split_not_empty [of cs sep] by (cases "Split cs sep") auto
    with True show ?thesis by simp
  next
    case False
    with Cons have "2 \<le> length (Split cs sep)" by simp
    with False show ?thesis by (cases "Split cs sep") auto
  qed
qed

lemma Split_parts: "p \<in> set (Split s sep) \<Longrightarrow> set p \<subseteq> set s - {sep}"
proof (induction s arbitrary: p)
  case Nil
  then show ?case by simp
next
  case (Cons c cs)
  show ?case
  proof (cases "c = sep")
    case True
    with Cons show ?thesis by auto
  next
    case False
    obtain q qs where q: "Split cs sep = q # qs"
      using Split_not_empty [of cs sep] by (cases "Split cs sep") auto
    with Cons.prems False have "p = c # q \<or> p \<in> set qs" by auto
    then show ?thesis
    proof
      assume "p = c # q"
      moreover have "set q \<subseteq> set cs - {sep}" using Cons.IH [of q] q by simp
      ultimately show ?thesis using False by auto
    next
      assume "p \<in> set qs"
      then have "set p \<subseteq> set cs - {sep}" using Cons.IH [of p] q by simp
      then show ?thesis by auto
    qed
  qed
qed

lemma Split_no_sep: "sep \<notin> set s \<Longrightarrow> Split s sep = [s]"
  by (induction s) auto

lemma Split_append: "sep \<notin> set a \<Longrightarrow> Split (a @ sep # rest) sep = a # Split rest sep"
  by (induction a) auto

lemma Join_Split: "Join (Split s sep) [sep] = s"
proof (induction s)
  case Nil
  then show ?case by simp
next
  case (Cons c cs)
  obtain q qs where q: "Split cs sep = q # qs"
    using Split_not_empty [of cs sep] by (cases "Split cs sep") auto
  show ?case
  proof (cases "c = sep")
    case True
    with Cons q show ?thesis by simp
  next
    case False
    with Cons q show ?thesis by (cases qs) auto
  qed
qed

lemma dropWhile_keeps: "x \<in> set s \<Longrightarrow> \<not> P x \<Longrightarrow> x \<in> set (dropWhile P s)"
  by (induction s) auto

lemma TrimSpace_subset: "set (TrimSpace s) \<subseteq> set s"
proof
  fix x assume "x \<in> set (TrimSpace s)"
  then have "x \<in> set (dropWhile isSpace (rev (dropWhile isSpace s)))"
    by (simp add: TrimSpace_def)
  then have "x \<in> set (rev (dropWhile isSpace s))" by (rule set_dropWhileD)
  then have "x \<in> set (dropWhile isSpace s)" by simp
  then show "x \<in> set s" by (rule set_dropWhileD)
qed

lemma TrimSpace_keeps: "x \<in> set s \<Longrightarrow> \<not> isSpace x \<Longrightarrow> x \<in> set (TrimSpace s)"
  unfolding TrimSpace_def by (simp add: dropWhile_keeps)

lemma dropWhile_all: "\<forall>c \<in> set s. P c \<Longrightarrow> dropWhile P s = []"
  by (induction s) auto

lemma TrimSpace_blank: "\<forall>c \<in> set s. isSpace c \<Longrightarrow> TrimSpace s = []"
  unfolding TrimSpace_def by (simp add: dropWhile_all)

lemma dropWhile_id: "s \<noteq> [] \<Longrightarrow> \<not> P (hd s) \<Longrightarrow> dropWhile P s = s"
  by (cases s) auto

lemma TrimSpace_id: "s \<noteq> [] \<Longrightarrow> \<not> isSpace (hd s) \<Longrightarrow> \<not> isSpace (last s) \<Longrightarrow> TrimSpace s = s"
  unfolding TrimSpace_def by (simp add: dropWhile_id hd_rev)

lemma TrimSpace_no_space:
  assumes "\<forall>c \<in> set s. \<not> isSpace c"
  shows "TrimSpace s = s"
proof (cases "s = []")
  case True
  then show ?thesis by (simp add: TrimSpace_def)
next
  case False
  then have "hd s \<in> set s" "last s \<in> set s" by simp_all
  with assms False show ?thesis by (intro TrimSpace_id) auto
qed

lemma TrimSpace_last: "TrimSpace s \<noteq> [] \<Longrightarrow> \<not> isSpace (last (TrimSpace s))"
  unfolding TrimSpace_def by (simp add: last_rev hd_dropWhile)

lemma last_dropWhile: "dropWhile P s \<noteq> [] \<Longrightarrow> last (dropWhile P s) = last s"
  by (induction s) (auto split: if_splits)

lemma TrimSpace_hd: "TrimSpace s \<noteq> [] \<Longrightarrow> \<not> isSpace (hd (TrimSpace s))"
proof -
  assume ne: "TrimSpace s \<noteq> []"
  let ?d = "dropWhile isSpace s"
  from ne have d: "dropWhile isSpace (rev ?d) \<noteq> []" by (simp add: TrimSpace_def)
  have dne: "?d \<noteq> []"
  proof
    assume "?d = []"
    with d show False by simp
  qed
  have "hd (TrimSpace s) = last (dropWhile isSpace (rev ?d))"
    unfolding TrimSpace_def using d by (simp add: hd_rev)
  also have "\<dots> = last (rev ?d)" using d by (rule last_dropWhile)
  also have "\<dots> = hd ?d" using dne by (simp add: last_rev)
  finally show ?thesis using dne hd_dropWhile [of isSpace s] by simp
qed

lemma HasPrefix_single: "HasPrefix s [c] = (s \<noteq> [] \<and> hd s = c)"
  by (cases s) (auto simp: HasPrefix_def)

lemma HasPrefix_hd: "HasPrefix s (c # p) \<Longrightarrow> s \<noteq> [] \<and> hd s = c"
  by (cases s) (auto simp: HasPrefix_def)

lemma HasSuffix_last: "HasSuffix s p \<Longrightarrow> p \<noteq> [] \<Longrightarrow> last s = last p"
proof -
  assume a: "HasSuffix s p" "p \<noteq> []"
  then have "s = take (length s - length p) s @ p"
    unfolding HasSuffix_def by (metis append_take_drop_id)
  then show ?thesis using a(2) by (metis last_appendR)
qed

section \<open>Filters and excludes: properties\<close>

lemma anyPattern_iff:
  "anyPattern match ps full = (\<exists>p \<in> set ps. p \<noteq> [] \<and> match p full = Inr True)"
  by (induction ps) (auto split: sum.splits bool.splits)

lemma fullRule_not_empty: "fullRule t rule \<noteq> []"
  by (simp add: fullRule_def)

text \<open>
  Claim C7. \<open>applyRuleFilters\<close> is whitelist-then-blacklist with default-allow: it keeps,
  in their order, exactly the rules whose \<open>TYPE,payload\<close> string is matched by some filter
  pattern (or all rules when there are no filters) and by no exclude pattern. In
  particular a rule matched both by a filter and by an exclude is not in the result.
  The source passes over empty patterns without calling the matcher; the matcher is
  assumed, as \<open>doublestar.Match\<close> does, never to match the empty pattern against a
  non-empty name, so passing over them changes nothing.
\<close>

theorem applyRuleFilters_whitelist_then_blacklist:
  assumes "\<forall>name. name \<noteq> [] \<longrightarrow> match [] name \<noteq> Inr True"
  shows "applyRuleFilters match rules ruleType filters excludes =
           filter (\<lambda>rule. (filters = [] \<or> (\<exists>f \<in> set filters. match f (fullRule ruleType rule) = Inr True))
                          \<and> \<not> (\<exists>e \<in> set excludes. match e (fullRule ruleType rule) = Inr True)) rules
         \<and> (\<forall>rule. (\<exists>f \<in> set filters. match f (fullRule ruleType rule) = Inr True)
                   \<and> (\<exists>e \<in> set excludes. match e (fullRule ruleType rule) = Inr True)
                   \<longrightarrow> rule \<notin> set (applyRuleFilters match rules ruleType filters excludes))"
proof -
  have any: "anyPattern match ps (fullRule ruleType rule)
               = (\<exists>p \<in> set ps. match p (fullRule ruleType rule) = Inr True)" for ps rule
  proof -
    have "p \<noteq> []" if "match p (fullRule ruleType rule) = Inr True" for p
      using assms that fullRule_not_empty [of ruleType rule] by blast
    then show ?thesis unfolding anyPattern_iff by blast
  qed
  have eq: "applyRuleFilters match rules ruleType filters excludes =
           filter (\<lambda>rule. (filters = [] \<or> (\<exists>f \<in> set filters. match f (fullRule ruleType rule) = Inr True))
                          \<and> \<not> (\<exists>e \<in> set excludes. match e (fullRule ruleType rule) = Inr True)) rules"
    by (cases "excludes = []") (auto simp: applyRuleFilters_def Let_def any intro: filter_cong)
  show ?thesis
  proof (intro conjI)
    show "applyRuleFilters match rules ruleType filters excludes =
           filter (\<lambda>rule. (filters = [] \<or> (\<exists>f \<in> set filters. match f (fullRule ruleType rule) = Inr True))
                          \<and> \<not> (\<exists>e \<in> set excludes. match e (fullRule ruleType rule) = Inr True)) rules"
      by (rule eq)
    show "\<forall>rule. (\<exists>f \<in> set filters. match f (fullRule ruleType rule) = Inr True)
                   \<and> (\<exists>e \<in> set excludes. match e (fullRule ruleType rule) = Inr True)
                   \<longrightarrow> rule \<notin> set (applyRuleFilters match rules ruleType filters excludes)"
      unfolding eq by auto
  qed
qed

theorem applyRuleFilters_whitelist_then_blacklist_witness:
  "applyRuleFilters literalMatch [''a.com'', ''b.com'', ''c.com''] RuleTypeDomain
        [''DOMAIN,a.com'', ''DOMAIN,b.com''] [''DOMAIN,b.com''] = [''a.com'']
   \<and> ''b.com'' \<notin> set (applyRuleFilters literalMatch [''a.com'', ''b.com'', ''c.com''] RuleTypeDomain
        [''DOMAIN,a.com'', ''DOMAIN,b.com''] [''DOMAIN,b.com''])"
proof -
  have h: "\<forall>name. name \<noteq> [] \<longrightarrow> literalMatch [] name \<noteq> Inr True"
    by (auto simp: literalMatch_def)
  show ?thesis
    using h applyRuleFilters_whitelist_then_blacklist [of literalMatch "[''a.com'', ''b.com'', ''c.com'']"
        RuleTypeDomain "[''DOMAIN,a.com'', ''DOMAIN,b.com'']" "[''DOMAIN,b.com'']"]
    by (simp add: literalMatch_def fullRule_def RuleTypeDomain_def)
qed

text \<open>
  Claim C10. When the filter list is not empty but holds only empty patterns, no rule
  passes: \<open>applyRuleFilters\<close> returns the empty list, whatever the matcher, the rules and
  the excludes are. The empty patterns are never matched, and the whitelist stage is
  still switched on by the length of the list.
\<close>

theorem applyRuleFilters_empty_patterns:
  assumes "filters \<noteq> []" and "\<forall>p \<in> set filters. p = []"
  shows "applyRuleFilters match rules ruleType filters excludes = []"
proof -
  have "\<not> anyPattern match filters full" for full
    using assms(2) by (simp add: anyPattern_iff)
  with assms(1) show ?thesis by (simp add: applyRuleFilters_def Let_def)
qed

theorem applyRuleFilters_empty_patterns_witness:
  "applyRuleFilters literalMatch [''a.com'', ''b.com''] RuleTypeDomain [[], []] [] = []"
  using applyRuleFilters_empty_patterns [of "[[], []]" literalMatch "[''a.com'', ''b.com'']" RuleTypeDomain "[]"]
  by simp

section \<open>The domain dialect\<close>

text \<open>
  Claim C8. The rewrite of a domain-suffix entry for the domain dialect is defined on
  every string: an entry that starts with \<open>+.\<close> is kept, one that starts with \<open>.\<close>
  gets \<open>+\<close> in front, any other gets \<open>+.\<close> in front; rewriting twice is rewriting once.
\<close>

theorem suffixEntry_total_idempotent:
  "(HasPrefix r ''+.'' \<longrightarrow> suffixEntry r = r)
   \<and> (\<not> HasPrefix r ''+.'' \<and> HasPrefix r ''.'' \<longrightarrow> suffixEntry r = ''+'' @ r)
   \<and> (\<not> HasPrefix r ''+.'' \<and> \<not> HasPrefix r ''.'' \<longrightarrow> suffixEntry r = ''+.'' @ r)
   \<and> suffixEntry (suffixEntry r) = suffixEntry r
   \<and> suffixEntry ''.x.com'' = ''+.x.com''
   \<and> suffixEntry ''x.com'' = ''+.x.com''
   \<and> suffixEntry ''+.x.com'' = ''+.x.com''"
  by (simp add: suffixEntry_def HasPrefix_def)

theorem suffixEntry_total_idempotent_witness:
  "\<not> HasPrefix ''.x.com'' ''+.'' \<and> HasPrefix ''.x.com'' ''.''
   \<and> suffixEntry ''.x.com'' = ''+.x.com''
   \<and> suffixEntry (suffixEntry ''.x.com'') = ''+.x.com''"
  using suffixEntry_total_idempotent [of "''.x.com''"] by (simp add: HasPrefix_def)

section \<open>ParseRule: properties\<close>

lemma splitRule_ok:
  assumes "CHR '','' \<in> set line"
  shows "\<exists>r. splitRule line = Inr (Some r)"
  using Split_length [OF assms] by (simp add: splitRule_def Let_def)

lemma parseStripped_ok: "parseStripped line = Inr None \<or> (\<exists>r. parseStripped line = Inr (Some r))"
  using splitRule_ok [of line] by (auto simp: parseStripped_def Contains_single)

lemma blank_parts:
  assumes "\<forall>c \<in> set line. c = CHR '','' \<or> isSpace c" and "p \<in> set (Split line CHR '','')"
  shows "TrimSpace p = []"
proof -
  have "set p \<subseteq> set line - {CHR '',''}" using assms(2) by (rule Split_parts)
  with assms(1) have "\<forall>c \<in> set p. isSpace c" by auto
  then show ?thesis by (rule TrimSpace_blank)
qed

text \<open>
  Claim C3, as the code has it. \<open>ParseRule\<close> returns a \<open>MalformedLine\<close> error for no
  line at all: a line that reaches the split contains a comma and so has at least two
  parts, and every other line is skipped. A line made only of commas and white space,
  with at least one comma (such as a lone comma), gives the rule whose type, payload and
  options are all empty.
\<close>

theorem ParseRule_never_malformed:
  "(ParseRule line = Inr None \<or> (\<exists>r. ParseRule line = Inr (Some r)))
   \<and> (CHR '','' \<in> set line \<and> (\<forall>c \<in> set line. c = CHR '','' \<or> isSpace c)
        \<longrightarrow> ParseRule line = Inr (Some \<lparr>Type = [], Payload = [], Options = []\<rparr>))"
proof (intro conjI impI)
  show "ParseRule line = Inr None \<or> (\<exists>r. ParseRule line = Inr (Some r))"
    using parseStripped_ok [of "TrimSpace line"] parseStripped_ok [of "TrimSpace (drop 1 (TrimSpace line))"]
    by (auto simp: ParseRule_def Let_def)
next
  assume a: "CHR '','' \<in> set line \<and> (\<forall>c \<in> set line. c = CHR '','' \<or> isSpace c)"
  let ?l = "TrimSpace line"
  have nsp: "\<not> isSpace CHR '',''" by (simp add: isSpace_def)
  have comma: "CHR '','' \<in> set ?l" using a nsp by (simp add: TrimSpace_keeps)
  then have ne: "?l \<noteq> []" by auto
  have sub: "\<forall>c \<in> set ?l. c = CHR '','' \<or> isSpace c"
    using a TrimSpace_subset [of line] by auto
  have "hd ?l \<in> set ?l" "last ?l \<in> set ?l" using ne by simp_all
  with sub TrimSpace_hd [OF ne] TrimSpace_last [OF ne]
  have hd: "hd ?l = CHR '',''" and last: "last ?l = CHR '',''" by auto
  have nc: "\<not> isComment ?l"
    using hd by (auto simp: isComment_def dest: HasPrefix_hd)
  have nd: "\<not> HasPrefix ?l ''-''"
    using hd by (auto dest: HasPrefix_hd)
  have ny: "\<not> isYamlField ?l"
    using comma by (simp add: isYamlField_def Contains_single)
  have "\<not> HasSuffix ?l s" if "s \<noteq> []" "last s \<noteq> CHR '',''" for s
    using that last HasSuffix_last [of ?l s] by auto
  then have nf: "\<not> isFileName ?l"
    by (simp add: isFileName_def)
  let ?parts = "Split ?l CHR '',''"
  have len: "2 \<le> length ?parts" using comma by (rule Split_length)
  have blank: "TrimSpace (?parts ! i) = []" if "i < length ?parts" for i
    using blank_parts [OF sub] that by simp
  have "splitRule ?l = Inr (Some \<lparr>Type = [], Payload = [], Options = []\<rparr>)"
    using len blank [of 0] blank [of 1] blank [of 2] Split_not_empty [of ?l "CHR '',''"]
    by (auto simp: splitRule_def Let_def ToUpper_def)
  then show "ParseRule line = Inr (Some \<lparr>Type = [], Payload = [], Options = []\<rparr>)"
    using ne nc nd ny nf comma
    by (simp add: ParseRule_def parseStripped_def Let_def Contains_single)
qed

theorem ParseRule_never_malformed_witness:
  "ParseRule '' , '' = Inr (Some \<lparr>Type = [], Payload = [], Options = []\<rparr>)"
  using ParseRule_never_malformed [of "'' , ''"] by (simp add: isSpace_def)

text \<open>The line of one comma is parsed to a rule, not to an error.\<close>

theorem ParseRule_comma_counterexample:
  "ParseRule '','' = Inr (Some \<lparr>Type = [], Payload = [], Options = []\<rparr>)"
  by (simp add: ParseRule_def parseStripped_def splitRule_def isComment_def isYamlField_def
      isFileName_def TrimSpace_def isSpace_def HasPrefix_def HasSuffix_def ToUpper_def)

text \<open>
  Claim C5, as the code has it. \<open>ParseRule\<close> does not look the first field up in the
  vocabulary. A line \<open>T,payload\<close> whose first field is non-empty, has no white space and
  no comma and does not start with \<open>#\<close>, \<open>;\<close>, \<open>/\<close> or \<open>-\<close>, whose payload has no white
  space and no comma, and which does not end like a file name, is parsed to the rule of
  type \<open>ToUpper T\<close> with that payload, whatever \<open>T\<close> is. The line is ASCII, where
  \<open>TrimSpace\<close> and \<open>ToUpper\<close> are Go's.
\<close>

theorem ParseRule_accepts_any_type:
  assumes "t \<noteq> []"
    and "\<forall>c \<in> set t. \<not> isSpace c \<and> c \<noteq> CHR '',''"
    and "hd t \<notin> set ''#;/-''"
    and "\<forall>c \<in> set p. \<not> isSpace c \<and> c \<noteq> CHR '',''"
    and "\<not> isFileName (t @ '','' @ p)"
    and "ascii t" and "ascii p"
  shows "ParseRule (t @ '','' @ p) = Inr (Some \<lparr>Type = ToUpper t, Payload = p, Options = []\<rparr>)"
proof -
  let ?l = "t @ '','' @ p"
  have nsp: "\<not> isSpace CHR '',''" by (simp add: isSpace_def)
  have hd: "hd ?l = hd t" using assms(1) by simp
  have "hd t \<in> set t" using assms(1) by simp
  then have hdsp: "\<not> isSpace (hd ?l)" using assms(2) hd by auto
  have lastsp: "\<not> isSpace (last ?l)"
  proof (cases "p = []")
    case True
    then show ?thesis using nsp by simp
  next
    case False
    then have "last ?l = last p" "last p \<in> set p" by simp_all
    then show ?thesis using assms(4) by auto
  qed
  have trim: "TrimSpace ?l = ?l" using hdsp lastsp by (intro TrimSpace_id) auto
  have nc: "\<not> isComment ?l"
    using assms(3) hd by (auto simp: isComment_def dest: HasPrefix_hd)
  have nd: "\<not> HasPrefix ?l ''-''"
    using assms(3) hd by (auto dest: HasPrefix_hd)
  have comma: "CHR '','' \<in> set ?l" by simp
  have ny: "\<not> isYamlField ?l"
    using comma by (simp add: isYamlField_def Contains_single del: set_append)
  have "CHR '','' \<notin> set t" "CHR '','' \<notin> set p" using assms(2,4) by auto
  then have split: "Split ?l CHR '','' = [t, p]"
    using Split_append [of "CHR '',''" t p] by (simp add: Split_no_sep)
  have tt: "TrimSpace t = t" and tp: "TrimSpace p = p"
    using assms(2,4) by (auto intro: TrimSpace_no_space)
  have "splitRule ?l = Inr (Some \<lparr>Type = ToUpper t, Payload = p, Options = []\<rparr>)"
    using split by (simp add: splitRule_def tt tp)
  then show ?thesis
    using trim nc nd ny comma assms(5)
    by (simp add: ParseRule_def parseStripped_def Let_def Contains_single del: set_append)
qed

theorem ParseRule_accepts_any_type_witness:
  "ParseRule ''Foo-1,bar'' = Inr (Some \<lparr>Type = ''FOO-1'', Payload = ''bar'', Options = []\<rparr>)"
  using ParseRule_accepts_any_type [of "''Foo-1''" "''bar''"]
  by (simp add: isSpace_def isFileName_def HasSuffix_def ToUpper_def upperChar_def ascii_def)

text \<open>A first field outside the vocabulary is accepted as a rule type.\<close>

theorem ParseRule_unknown_type_counterexample:
  "ParseRule ''FOO,bar'' = Inr (Some \<lparr>Type = ''FOO'', Payload = ''bar'', Options = []\<rparr>)
   \<and> ''FOO'' \<notin> set ruleTypeVocabulary"
  by (simp add: ParseRule_def parseStripped_def splitRule_def isComment_def isYamlField_def
      isFileName_def TrimSpace_def isSpace_def HasPrefix_def HasSuffix_def ToUpper_def upperChar_def
      ruleTypeVocabulary_def RuleType_defs)

section \<open>Sorting: properties\<close>

subsection \<open>sort.Slice\<close>

lemma sink_mset: "mset (sink lt x acc) = add_mset x (mset acc)"
  by (induction acc) auto

lemma sink_set: "set (sink lt x acc) = insert x (set acc)"
  by (induction acc) auto

lemma foldl_sink_mset: "mset (foldl (\<lambda>acc x. sink lt x acc) acc xs) = mset acc + mset xs"
  by (induction xs arbitrary: acc) (auto simp: sink_mset)

lemma sort_Slice_mset: "mset (sort_Slice lt xs) = mset xs"
  by (simp add: sort_Slice_def foldl_sink_mset)

lemma sort_Slice_set: "set (sort_Slice lt xs) = set xs"
  using sort_Slice_mset [of lt xs] by (metis set_mset_mset)

lemma sort_Slice_distinct: "distinct (sort_Slice lt xs) = distinct xs"
  using sort_Slice_mset [of lt xs] by (rule mset_eq_imp_distinct_iff)

lemma sink_sorted:
  assumes "strictWeakOrder lt" and "sorted_wrt (\<lambda>a b. \<not> lt a b) acc"
  shows "sorted_wrt (\<lambda>a b. \<not> lt a b) (sink lt x acc)"
  using assms(2)
proof (induction acc)
  case Nil
  then show ?case by simp
next
  case (Cons y ys)
  from assms(1) have asym: "\<And>a b. lt a b \<Longrightarrow> \<not> lt b a"
    and nt: "\<And>a b c. \<not> lt a b \<Longrightarrow> \<not> lt b c \<Longrightarrow> \<not> lt a c"
    unfolding strictWeakOrder_def by blast+
  show ?case
  proof (cases "lt x y")
    case True
    with Cons asym show ?thesis by (auto simp: sink_set)
  next
    case False
    with Cons.prems nt show ?thesis by auto
  qed
qed

lemma foldl_sink_sorted:
  assumes "strictWeakOrder lt" and "sorted_wrt (\<lambda>a b. \<not> lt a b) acc"
  shows "sorted_wrt (\<lambda>a b. \<not> lt a b) (foldl (\<lambda>acc x. sink lt x acc) acc xs)"
  using assms(2) by (induction xs arbitrary: acc) (auto intro: sink_sorted [OF assms(1)])

lemma sort_Slice_sorted: "strictWeakOrder lt \<Longrightarrow> sortedBy lt (sort_Slice lt xs)"
  unfolding sortedBy_def sort_Slice_def sorted_wrt_rev
  by (rule foldl_sink_sorted) simp_all

lemma sortedBy_nth:
  "sortedBy lt ys \<Longrightarrow> i < j \<Longrightarrow> j < length ys \<Longrightarrow> \<not> lt (ys ! j) (ys ! i)"
  unfolding sortedBy_def by (simp add: sorted_wrt_iff_nth_less)

text \<open>Under a total comparator the sorted arrangement of given elements is unique.\<close>

lemma sortedBy_Cons: "sortedBy lt (x # xs) = ((\<forall>z \<in> set xs. \<not> lt z x) \<and> sortedBy lt xs)"
  by (simp add: sortedBy_def)

lemma sortedBy_unique:
  assumes total: "\<forall>a b. a \<noteq> b \<longrightarrow> lt a b \<or> lt b a"
    and "sortedBy lt xs" and "sortedBy lt ys" and "mset xs = mset ys"
  shows "xs = ys"
  using assms(2-)
proof (induction xs arbitrary: ys)
  case Nil
  then show ?case by simp
next
  case (Cons x xs)
  from Cons.prems(3) obtain y ys' where ys: "ys = y # ys'" by (cases ys) auto
  have xy: "x = y"
  proof (rule ccontr)
    assume ne: "x \<noteq> y"
    have "x \<in># mset ys" using Cons.prems(3) by (metis list.set_intros(1) set_mset_mset)
    with ne ys have "x \<in> set ys'" by simp
    with Cons.prems(2) ys have 1: "\<not> lt x y" by (simp add: sortedBy_Cons)
    have "y \<in># mset (x # xs)" using Cons.prems(3) ys by (metis list.set_intros(1) set_mset_mset)
    with ne have "y \<in> set xs" by simp
    with Cons.prems(1) have 2: "\<not> lt y x" by (simp add: sortedBy_Cons)
    from total ne 1 2 show False by blast
  qed
  with Cons.prems(3) ys have "mset xs = mset ys'" by simp
  moreover have "sortedBy lt xs" "sortedBy lt ys'"
    using Cons.prems(1,2) ys by (simp_all add: sortedBy_Cons)
  ultimately have "xs = ys'" by (rule Cons.IH [rotated 2])
  with xy ys show ?case by simp
qed

lemma portLess_swo: "strictWeakOrder portLess"
  unfolding strictWeakOrder_def portLess_def by auto

lemma cidrLess_swo: "strictWeakOrder cidrLess"
  unfolding strictWeakOrder_def cidrLess_def Let_def by auto

lemma cidrLess_total: "\<forall>a b. a \<noteq> b \<longrightarrow> cidrLess a b \<or> cidrLess b a"
  by (auto simp: cidrLess_def Let_def)

lemma Deduplicate_sequence:
  assumes "ruleSets opt name = Some rs" and "Rules rs t = Some rules"
  shows "\<exists>rs'. ruleSets (Deduplicate iter opt) name = Some rs'
            \<and> Rules rs' t = Some (dedupRules iter name t rules)"
  using assms by (simp add: Deduplicate_def dedupRuleSet_def)

lemma iter_mset:
  assumes "mapIteration iter"
  shows "mset (iter name t rules) = mset (remdups rules)"
proof -
  have "distinct (iter name t rules)" "set (iter name t rules) = set (remdups rules)"
    using assms by (simp_all add: mapIteration_def)
  then show ?thesis
    using set_eq_iff_mset_eq_distinct [of "iter name t rules" "remdups rules"] by simp
qed

lemma distinct_pair:
  assumes "distinct xs" and "set xs = {a, b}" and "a \<noteq> b"
  shows "xs = [a, b] \<or> xs = [b, a]"
proof -
  have "length xs = card (set xs)" using assms(1) by (simp add: distinct_card)
  also have "\<dots> = 2" using assms(2,3) by simp
  finally obtain x y where xs: "xs = [x, y]"
    by (metis One_nat_def Suc_1 length_0_conv length_Suc_conv)
  with assms(2) have "{x, y} = {a, b}" by simp
  then have "(x = a \<and> y = b) \<or> (x = b \<and> y = a)" by (auto simp: doubleton_eq_iff)
  with xs show ?thesis by auto
qed

lemma iter_pair:
  assumes "mapIteration iter" and "a \<noteq> b"
  shows "iter name t [a, b] = [a, b] \<or> iter name t [a, b] = [b, a]"
  using assms distinct_pair [of "iter name t [a, b]" a b] by (simp add: mapIteration_def)

lemma sortRulesByType_port:
  assumes "t \<in> set portTypes"
  shows "sortRulesByType t rules = sort_Slice portLess rules"
proof -
  from assms have "t = ''DST-PORT'' \<or> t = ''SRC-PORT'' \<or> t = ''IN-PORT''"
    by (simp add: portTypes_def RuleType_defs)
  then show ?thesis
    by (elim disjE) (simp_all add: sortRulesByType_def RuleType_defs cidrTypes_def portTypes_def)
qed

lemma sortRulesByType_cidr:
  assumes "t \<in> set cidrTypes"
  shows "sortRulesByType t rules = sort_Slice cidrLess (map normalizeCIDR rules)"
proof -
  from assms have "t = ''IP-CIDR'' \<or> t = ''IP-CIDR6'' \<or> t = ''SRC-IP-CIDR'' \<or> t = ''SRC-IP-CIDR6''
      \<or> t = ''IP-SUFFIX'' \<or> t = ''SRC-IP-SUFFIX''"
    by (simp add: cidrTypes_def RuleType_defs)
  then show ?thesis
    by (elim disjE) (simp_all add: sortRulesByType_def RuleType_defs cidrTypes_def)
qed

lemma distinct_singleton: "distinct xs \<Longrightarrow> set xs = {x} \<Longrightarrow> xs = [x]"
proof (cases xs)
  case Nil
  assume "set xs = {x}"
  with Nil show ?thesis by simp
next
  case (Cons y ys)
  assume d: "distinct xs" and s: "set xs = {x}"
  from s Cons have y: "y = x" and sub: "set ys \<subseteq> {x}" by auto
  from d Cons y have "x \<notin> set ys" by simp
  with sub have "ys = []" by (cases ys) auto
  with Cons y show ?thesis by simp
qed

lemma iter_singleton:
  assumes "mapIteration iter" and "set rules = {x}"
  shows "iter name t rules = [x]"
  using assms distinct_singleton [of "iter name t rules" x] by (simp add: mapIteration_def)

section \<open>Loading and exporting the examples\<close>

lemmas parse_simps = ParseRule_def parseStripped_def splitRule_def isComment_def isYamlField_def
      isFileName_def TrimSpace_def isSpace_def HasPrefix_def HasSuffix_def ToUpper_def upperChar_def

lemma match_loaded:
  "LoadRuleFile matchFiles ''rules.list'' ''test'' NewOptimizer =
     Inr \<lparr>ruleSets = [''test'' \<mapsto> \<lparr>Name = ''test'',
            Rules = [''MATCH'' \<mapsto> [''DIRECT''], ''FINAL'' \<mapsto> [''DIRECT'']],
            Filters = [], Excludes = []\<rparr>]\<rparr>"
  by (simp add: LoadRuleFile_def matchFiles_def NewOptimizer_def loadLine_def addRule_def
      rulesOf_def storedPayload_def parse_simps)

lemma example_loaded:
  "LoadRuleFile exampleFiles ''rules.list'' ''test'' NewOptimizer =
     Inr \<lparr>ruleSets = [''test'' \<mapsto> \<lparr>Name = ''test'',
            Rules = [''IP-CIDR'' \<mapsto> [''1.2.3.0/24'', ''1.2.3.0/24''],
                     ''DOMAIN-SUFFIX'' \<mapsto> [''.example.com'']],
            Filters = [], Excludes = []\<rparr>]\<rparr>"
  by (simp add: LoadRuleFile_def exampleFiles_def NewOptimizer_def loadLine_def addRule_def
      rulesOf_def storedPayload_def parse_simps)

lemma match_deduplicated:
  "\<exists>opt. LoadRuleFile matchFiles ''rules.list'' ''test'' NewOptimizer = Inr opt
      \<and> ruleSets (Deduplicate firstSeen opt) ''test'' = Some matchRuleSet"
proof -
  have "dedupRuleSet firstSeen ''test'' \<lparr>Name = ''test'',
            Rules = [''MATCH'' \<mapsto> [''DIRECT''], ''FINAL'' \<mapsto> [''DIRECT'']],
            Filters = [], Excludes = []\<rparr> = matchRuleSet"
    unfolding dedupRuleSet_def matchRuleSet_def
    by (auto simp: fun_eq_iff dedupRules_def firstSeen_def sortRulesByType_def RuleType_defs
        cidrTypes_def portTypes_def sort_Strings_def sort_Slice_def)
  then show ?thesis
    unfolding match_loaded by (simp add: Deduplicate_def)
qed

text \<open>
  Claim C4, at a rule-set loaded from the lines \<open>MATCH,DIRECT\<close> and \<open>FINAL,DIRECT\<close>.
  The store holds both rules after \<open>Deduplicate\<close>, yet the plain-text files of
  \<open>classical_all\<close> and \<open>classical_all_no_resolve\<close> hold no rule at all: \<open>orderedTypes\<close>
  names neither \<open>MATCH\<close> nor \<open>FINAL\<close>, so \<open>exportClassical\<close> never visits them, also
  when \<open>includeAll\<close> is set.
\<close>

theorem exportClassical_all_omits_match:
  "\<exists>opt rs. LoadRuleFile matchFiles ''rules.list'' ''test'' NewOptimizer = Inr opt
      \<and> ruleSets (Deduplicate firstSeen opt) ''test'' = Some rs
      \<and> Rules rs RuleTypeMatch = Some [''DIRECT'']
      \<and> Rules rs RuleTypeFinal = Some [''DIRECT'']
      \<and> ruleLines (snd (exportClassical match rs True False)) = []
      \<and> ruleLines (snd (exportClassical match rs True True)) = []"
proof -
  have 1: "Rules matchRuleSet RuleTypeMatch = Some [''DIRECT'']" by code_simp
  have 2: "Rules matchRuleSet RuleTypeFinal = Some [''DIRECT'']" by code_simp
  have 3: "ruleLines (snd (exportClassical match matchRuleSet True False)) = []" by code_simp
  have 4: "ruleLines (snd (exportClassical match matchRuleSet True True)) = []" by code_simp
  from match_deduplicated 1 2 3 4 show ?thesis by blast
qed

lemma example_deduplicated:
  assumes "mapIteration iter"
  shows "\<exists>opt. LoadRuleFile exampleFiles ''rules.list'' ''test'' NewOptimizer = Inr opt
      \<and> ruleSets (Deduplicate iter opt) ''test'' = Some exampleRuleSet"
proof -
  have i1: "iter ''test'' ''IP-CIDR'' [''1.2.3.0/24'', ''1.2.3.0/24''] = [''1.2.3.0/24'']"
    using assms by (rule iter_singleton) simp
  have i2: "iter ''test'' ''DOMAIN-SUFFIX'' [''.example.com''] = [''.example.com'']"
    using assms by (rule iter_singleton) simp
  have d1: "dedupRules iter ''test'' ''IP-CIDR'' [''1.2.3.0/24'', ''1.2.3.0/24''] = [''1.2.3.0/24'']"
    by (simp add: dedupRules_def i1 sortRulesByType_def RuleType_defs cidrTypes_def sort_Slice_def
        normalizeCIDR_def HasPrefix_def)
  have d2: "dedupRules iter ''test'' ''DOMAIN-SUFFIX'' [''.example.com''] = [''.example.com'']"
    by (simp add: dedupRules_def i2 sortRulesByType_def RuleType_defs sort_Slice_def)
  have "dedupRuleSet iter ''test'' \<lparr>Name = ''test'',
            Rules = [''IP-CIDR'' \<mapsto> [''1.2.3.0/24'', ''1.2.3.0/24''],
                     ''DOMAIN-SUFFIX'' \<mapsto> [''.example.com'']],
            Filters = [], Excludes = []\<rparr> = exampleRuleSet"
    unfolding dedupRuleSet_def exampleRuleSet_def
    by (auto simp: fun_eq_iff d1 d2)
  then show ?thesis
    unfolding example_loaded by (simp add: Deduplicate_def)
qed

text \<open>
  Claim C1. The rule-set \<open>test\<close> is loaded from the three lines of the example and
  deduplicated, in whatever order the map yields its keys, and exported with whatever
  matcher. Then \<open>test_domain.list\<close> is the one line \<open>+.example.com\<close>,
  \<open>test_ipcidr.list\<close> is the one line \<open>1.2.3.0/24\<close>,
  \<open>test_classical_no_resolve.list\<close> has the line \<open>IP-CIDR,1.2.3.0/24,no-resolve\<close>, and
  \<open>test_classical.list\<close> has neither the domain-suffix rule nor the IP-CIDR rule; it
  has no rule line at all.
\<close>

theorem end_to_end_example:
  assumes "mapIteration iter"
  shows "\<exists>opt files classical noResolve.
      LoadRuleFile exampleFiles ''rules.list'' ''test'' NewOptimizer = Inr opt
      \<and> Export match (Deduplicate iter opt) ''test'' = Some files
      \<and> map_of files ''test_domain.list'' = Some (''+.example.com'' @ [CHR 0x0A])
      \<and> map_of files ''test_ipcidr.list'' = Some (''1.2.3.0/24'' @ [CHR 0x0A])
      \<and> map_of files ''test_classical_no_resolve.list'' = Some noResolve
      \<and> ''IP-CIDR,1.2.3.0/24,no-resolve'' \<in> set (fileLines noResolve)
      \<and> map_of files ''test_classical.list'' = Some classical
      \<and> ''DOMAIN-SUFFIX,.example.com'' \<notin> set (fileLines classical)
      \<and> ''IP-CIDR,1.2.3.0/24'' \<notin> set (fileLines classical)
      \<and> ruleLines classical = []"
proof -
  let ?files = "exportRuleSet match exampleRuleSet"
  let ?noResolve = "snd (exportClassical match exampleRuleSet False True)"
  let ?classical = "snd (exportClassical match exampleRuleSet False False)"
  have 1: "map_of ?files ''test_domain.list'' = Some (''+.example.com'' @ [CHR 0x0A])" by code_simp
  have 2: "map_of ?files ''test_ipcidr.list'' = Some (''1.2.3.0/24'' @ [CHR 0x0A])" by code_simp
  have 3: "map_of ?files ''test_classical_no_resolve.list'' = Some ?noResolve" by code_simp
  have 4: "''IP-CIDR,1.2.3.0/24,no-resolve'' \<in> set (fileLines ?noResolve)" by code_simp
  have 5: "map_of ?files ''test_classical.list'' = Some ?classical" by code_simp
  have 6: "''DOMAIN-SUFFIX,.example.com'' \<notin> set (fileLines ?classical)" by code_simp
  have 7: "''IP-CIDR,1.2.3.0/24'' \<notin> set (fileLines ?classical)" by code_simp
  have 8: "ruleLines ?classical = []" by code_simp
  from example_deduplicated [OF assms] obtain opt where
    opt: "LoadRuleFile exampleFiles ''rules.list'' ''test'' NewOptimizer = Inr opt"
      "ruleSets (Deduplicate iter opt) ''test'' = Some exampleRuleSet" by blast
  then have "Export match (Deduplicate iter opt) ''test'' = Some ?files"
    by (simp add: Export_def)
  with opt(1) 1 2 3 4 5 6 7 8 show ?thesis by blast
qed

theorem end_to_end_example_witness:
  "\<exists>opt files classical noResolve.
      LoadRuleFile exampleFiles ''rules.list'' ''test'' NewOptimizer = Inr opt
      \<and> Export literalMatch (Deduplicate firstSeen opt) ''test'' = Some files
      \<and> map_of files ''test_domain.list'' = Some (''+.example.com'' @ [CHR 0x0A])
      \<and> map_of files ''test_ipcidr.list'' = Some (''1.2.3.0/24'' @ [CHR 0x0A])
      \<and> map_of files ''test_classical_no_resolve.list'' = Some noResolve
      \<and> ''IP-CIDR,1.2.3.0/24,no-resolve'' \<in> set (fileLines noResolve)
      \<and> map_of files ''test_classical.list'' = Some classical
      \<and> ''DOMAIN-SUFFIX,.example.com'' \<notin> set (fileLines classical)
      \<and> ''IP-CIDR,1.2.3.0/24'' \<notin> set (fileLines classical)
      \<and> ruleLines classical = []"
proof -
  have "mapIteration firstSeen" by (simp add: mapIteration_def firstSeen_def)
  then show ?thesis by (rule end_to_end_example)
qed

section \<open>Deduplicate: properties\<close>

lemma Join_Cons: "ps \<noteq> [] \<Longrightarrow> Join (p # ps) sep = p @ sep @ Join ps sep"
  by (cases ps) auto

lemma normalizeCIDR_spec:
  assumes "CHR '','' \<notin> set addr" and "opts = [] \<or> hd opts = CHR '',''"
  shows "normalizeCIDR (addr @ opts) =
           (if CHR ''/'' \<in> set addr then addr @ opts
            else if CHR '':'' \<in> set addr then addr @ ''/128'' @ opts
            else addr @ ''/32'' @ opts)"
proof (cases "opts = []")
  case True
  with assms(1) show ?thesis
    by (simp add: normalizeCIDR_def Split_no_sep Contains_single)
next
  case False
  with assms(2) obtain rest where opts: "opts = CHR '','' # rest" by (cases opts) auto
  have split: "Split (addr @ opts) CHR '','' = addr # Split rest CHR '',''"
    unfolding opts using assms(1) by (rule Split_append)
  have join: "Join ((addr @ m) # Split rest CHR '','') '','' = addr @ m @ opts" for m
    using Join_Cons [OF Split_not_empty, of "addr @ m" rest "CHR '',''" "'',''"]
    by (simp add: opts Join_Split)
  show ?thesis
    using join [of "''/32''"] join [of "''/128''"]
    by (simp add: normalizeCIDR_def split Contains_single del: Join.simps)
qed

lemma mask_loaded:
  "LoadRuleFile maskFiles ''rules.list'' ''test'' NewOptimizer =
     Inr \<lparr>ruleSets = [''test'' \<mapsto> \<lparr>Name = ''test'',
            Rules = [''IP-CIDR'' \<mapsto> [''1.2.3.4'', ''1.2.3.4/32'']],
            Filters = [], Excludes = []\<rparr>]\<rparr>"
  by (simp add: LoadRuleFile_def maskFiles_def NewOptimizer_def loadLine_def addRule_def
      rulesOf_def storedPayload_def parse_simps)

lemma mask_dedup_once:
  assumes "mapIteration iter"
  shows "dedupRules iter name ''IP-CIDR'' [''1.2.3.4'', ''1.2.3.4/32''] = [''1.2.3.4/32'', ''1.2.3.4/32'']"
proof -
  have n1: "normalizeCIDR ''1.2.3.4'' = ''1.2.3.4/32''" by code_simp
  have n2: "normalizeCIDR ''1.2.3.4/32'' = ''1.2.3.4/32''" by code_simp
  have s: "sort_Slice cidrLess [''1.2.3.4/32'', ''1.2.3.4/32''] = [''1.2.3.4/32'', ''1.2.3.4/32'']"
    by (simp add: sort_Slice_def cidrLess_def)
  have c: "''IP-CIDR'' \<in> set cidrTypes" by (simp add: cidrTypes_def RuleType_defs)
  from iter_pair [OF assms, of "''1.2.3.4''" "''1.2.3.4/32''" name "''IP-CIDR''"]
  have "map normalizeCIDR (iter name ''IP-CIDR'' [''1.2.3.4'', ''1.2.3.4/32''])
          = [''1.2.3.4/32'', ''1.2.3.4/32'']"
    using n1 n2 by auto
  then show ?thesis
    by (simp add: dedupRules_def sortRulesByType_cidr [OF c] s)
qed

lemma mask_dedup_twice:
  assumes "mapIteration iter"
  shows "dedupRules iter name ''IP-CIDR'' [''1.2.3.4/32'', ''1.2.3.4/32''] = [''1.2.3.4/32'']"
proof -
  have n2: "normalizeCIDR ''1.2.3.4/32'' = ''1.2.3.4/32''" by code_simp
  have c: "''IP-CIDR'' \<in> set cidrTypes" by (simp add: cidrTypes_def RuleType_defs)
  have "iter name ''IP-CIDR'' [''1.2.3.4/32'', ''1.2.3.4/32''] = [''1.2.3.4/32'']"
    using assms by (rule iter_singleton) simp
  then show ?thesis
    by (simp add: dedupRules_def sortRulesByType_cidr [OF c] n2 sort_Slice_def)
qed

text \<open>
  Claim C2, at a rule-set loaded from the lines \<open>IP-CIDR,1.2.3.4\<close> and
  \<open>IP-CIDR,1.2.3.4/32\<close>. The two entries differ when the duplicates are removed and are
  equal after \<open>normalizeCIDR\<close>, which runs afterwards: one \<open>Deduplicate\<close> leaves the
  entry twice in the sequence, a second one leaves it once. This holds for every order
  in which the map yields its keys, in either run.
\<close>

theorem Deduplicate_twice_differs:
  assumes "mapIteration iter1" and "mapIteration iter2"
  shows "\<exists>opt rs1 rs2.
      LoadRuleFile maskFiles ''rules.list'' ''test'' NewOptimizer = Inr opt
      \<and> ruleSets (Deduplicate iter1 opt) ''test'' = Some rs1
      \<and> Rules rs1 RuleTypeIPCIDR = Some [''1.2.3.4/32'', ''1.2.3.4/32'']
      \<and> ruleSets (Deduplicate iter2 (Deduplicate iter1 opt)) ''test'' = Some rs2
      \<and> Rules rs2 RuleTypeIPCIDR = Some [''1.2.3.4/32'']"
  unfolding mask_loaded
  by (simp add: Deduplicate_def dedupRuleSet_def RuleTypeIPCIDR_def
      mask_dedup_once [OF assms(1)] mask_dedup_twice [OF assms(2)])

theorem Deduplicate_twice_differs_witness:
  "\<exists>opt rs1 rs2.
      LoadRuleFile maskFiles ''rules.list'' ''test'' NewOptimizer = Inr opt
      \<and> ruleSets (Deduplicate firstSeen opt) ''test'' = Some rs1
      \<and> Rules rs1 RuleTypeIPCIDR = Some [''1.2.3.4/32'', ''1.2.3.4/32'']
      \<and> ruleSets (Deduplicate lastSeenFirst (Deduplicate firstSeen opt)) ''test'' = Some rs2
      \<and> Rules rs2 RuleTypeIPCIDR = Some [''1.2.3.4/32'']"
proof -
  have 1: "mapIteration firstSeen" by (simp add: mapIteration_def firstSeen_def)
  have 2: "mapIteration lastSeenFirst" by (simp add: mapIteration_def lastSeenFirst_def)
  from 1 2 show ?thesis by (rule Deduplicate_twice_differs)
qed

text \<open>
  For the port kinds and the IP-ASN kinds the comparator does not tell apart entries
  with the same range start, or the same number with and without \<open>AS\<close>: the order
  of such entries in the result is the order in which the map yielded them.
\<close>

lemma Deduplicate_order_follows_iteration:
  "dedupRules firstSeen name RuleTypeDstPort [''80-443'', ''80-8080''] = [''80-443'', ''80-8080'']
   \<and> dedupRules lastSeenFirst name RuleTypeDstPort [''80-443'', ''80-8080''] = [''80-8080'', ''80-443'']
   \<and> dedupRules firstSeen name RuleTypeIPASN [''AS13335'', ''13335''] = [''AS13335'', ''13335'']
   \<and> dedupRules lastSeenFirst name RuleTypeIPASN [''AS13335'', ''13335''] = [''13335'', ''AS13335'']"
  by code_simp

text \<open>
  Claim C9, as the code has it. For a port kind, \<open>Deduplicate\<close> leaves the distinct
  entries of the sequence ordered by their range start, the text before the first \<open>-\<close>,
  compared as a string: an entry that comes before another has a range start that is
  less or equal, and an entry whose range start is less than another's comes before it.
  So \<open>100-200\<close> comes before \<open>20-30\<close>. Nothing is said of two entries with the same
  range start.
\<close>

theorem port_order_by_range_start:
  assumes "mapIteration iter" and "t \<in> set portTypes"
    and "ruleSets opt name = Some rs" and "Rules rs t = Some rules"
  shows "\<exists>rs' res. ruleSets (Deduplicate iter opt) name = Some rs' \<and> Rules rs' t = Some res
      \<and> distinct res \<and> set res = set rules
      \<and> (\<forall>i j. i < j \<and> j < length res \<longrightarrow> portStart (res ! i) \<le> portStart (res ! j))
      \<and> (\<forall>i j. i < length res \<and> j < length res \<and> portStart (res ! i) < portStart (res ! j)
                 \<longrightarrow> i < j)
      \<and> dedupRules iter name t [''20-30'', ''100-200''] = [''100-200'', ''20-30'']"
proof -
  let ?res = "dedupRules iter name t rules"
  have res: "?res = sort_Slice portLess (iter name t rules)"
    by (simp add: dedupRules_def sortRulesByType_port [OF assms(2)])
  have it: "distinct (iter name t rules)" "set (iter name t rules) = set rules"
    using assms(1) by (simp_all add: mapIteration_def)
  have d: "distinct ?res" and s: "set ?res = set rules"
    using it by (simp_all add: res sort_Slice_distinct sort_Slice_set)
  have sorted: "sortedBy portLess ?res"
    unfolding res using portLess_swo by (rule sort_Slice_sorted)
  have le: "portStart (?res ! i) \<le> portStart (?res ! j)" if "i < j" "j < length ?res" for i j
    using sortedBy_nth [OF sorted that] by (simp add: portLess_def)
  have lt: "i < j" if "i < length ?res" "j < length ?res"
    "portStart (?res ! i) < portStart (?res ! j)" for i j
  proof (rule ccontr)
    assume "\<not> i < j"
    then have "j = i \<or> j < i" by auto
    then show False
    proof
      assume "j = i"
      with that(3) show False by simp
    next
      assume "j < i"
      from le [OF this that(1)] that(3) show False by simp
    qed
  qed
  have ex: "dedupRules iter name t [''20-30'', ''100-200''] = [''100-200'', ''20-30'']"
  proof -
    have a: "sort_Slice portLess [''20-30'', ''100-200''] = [''100-200'', ''20-30'']" by code_simp
    have b: "sort_Slice portLess [''100-200'', ''20-30''] = [''100-200'', ''20-30'']" by code_simp
    from iter_pair [OF assms(1), of "''20-30''" "''100-200''" name t] a b
    show ?thesis by (auto simp: dedupRules_def sortRulesByType_port [OF assms(2)])
  qed
  from Deduplicate_sequence [OF assms(3,4), of iter] obtain rs' where
    rs': "ruleSets (Deduplicate iter opt) name = Some rs'" "Rules rs' t = Some ?res" by blast
  show ?thesis
  proof (intro exI conjI)
    show "ruleSets (Deduplicate iter opt) name = Some rs'" by (rule rs'(1))
    show "Rules rs' t = Some ?res" by (rule rs'(2))
    show "distinct ?res" by (rule d)
    show "set ?res = set rules" by (rule s)
    show "\<forall>i j. i < j \<and> j < length ?res \<longrightarrow> portStart (?res ! i) \<le> portStart (?res ! j)"
      using le by blast
    show "\<forall>i j. i < length ?res \<and> j < length ?res \<and> portStart (?res ! i) < portStart (?res ! j) \<longrightarrow> i < j"
      using lt by blast
    show "dedupRules iter name t [''20-30'', ''100-200''] = [''100-200'', ''20-30'']" by (rule ex)
  qed
qed

theorem port_order_by_range_start_witness:
  "\<exists>rs'. ruleSets (Deduplicate firstSeen portsOptimizer) ''ports'' = Some rs'
      \<and> Rules rs' RuleTypeDstPort = Some [''100-200'', ''20-30'', ''80'']
      \<and> portStart ''100-200'' = ''100'' \<and> portStart ''20-30'' = ''20'' \<and> portStart ''80'' = ''80''
      \<and> ''100'' < ''20'' \<and> ''20'' < ''80''"
proof -
  have 1: "mapIteration firstSeen" by (simp add: mapIteration_def firstSeen_def)
  have 2: "RuleTypeDstPort \<in> set portTypes" by (simp add: portTypes_def)
  have 3: "ruleSets portsOptimizer ''ports'' = Some \<lparr>Name = ''ports'',
         Rules = [''DST-PORT'' \<mapsto> [''20-30'', ''100-200'', ''80'', ''20-30'']],
         Filters = [], Excludes = []\<rparr>"
    by (simp add: portsOptimizer_def)
  have 4: "Rules \<lparr>Name = ''ports'',
         Rules = [''DST-PORT'' \<mapsto> [''20-30'', ''100-200'', ''80'', ''20-30'']],
         Filters = [], Excludes = []\<rparr> RuleTypeDstPort = Some [''20-30'', ''100-200'', ''80'', ''20-30'']"
    by (simp add: RuleTypeDstPort_def)
  have 5: "dedupRules firstSeen ''ports'' RuleTypeDstPort [''20-30'', ''100-200'', ''80'', ''20-30'']
             = [''100-200'', ''20-30'', ''80'']" by code_simp
  have 6: "portStart ''100-200'' = ''100'' \<and> portStart ''20-30'' = ''20'' \<and> portStart ''80'' = ''80''
      \<and> ''100'' < ''20'' \<and> ''20'' < ''80''" by code_simp
  from port_order_by_range_start [OF 1 2 3 4] Deduplicate_sequence [OF 3 4, of firstSeen] 5 6
  show ?thesis by auto
qed

text \<open>
  Two entries with the same range start: one comes before the other in the result, and
  its range start is not less than the other's.
\<close>

theorem port_equal_start_counterexample:
  "dedupRules firstSeen ''ports'' RuleTypeDstPort [''80-443'', ''80-8080''] = [''80-443'', ''80-8080'']
   \<and> \<not> portStart ''80-443'' < portStart ''80-8080''
   \<and> dedupRules lastSeenFirst ''ports'' RuleTypeDstPort [''80-443'', ''80-8080''] = [''80-8080'', ''80-443'']
   \<and> \<not> portStart ''80-8080'' < portStart ''80-443''"
  by code_simp

text \<open>
  The mask that \<open>extractCIDRMask\<close> reads: the number written after the first \<open>/\<close> of
  the part before the first comma, up to the first character that is no digit; without
  a \<open>/\<close>, 128 for a part with a \<open>:\<close> and 32 otherwise.
\<close>

lemma Split_first: "Split s sep ! 0 = takeWhile (\<lambda>c. c \<noteq> sep) s"
proof (induction s)
  case Nil
  then show ?case by simp
next
  case (Cons c cs)
  obtain q qs where q: "Split cs sep = q # qs"
    using Split_not_empty [of cs sep] by (cases "Split cs sep") auto
  with Cons show ?case by simp
qed

lemma takeWhile_not_in:
  "x \<notin> set xs \<Longrightarrow> takeWhile (\<lambda>c. c \<noteq> x) (xs @ ys) = xs @ takeWhile (\<lambda>c. c \<noteq> x) ys"
  by (induction xs) auto

lemma dropWhile_not_in:
  "x \<notin> set xs \<Longrightarrow> dropWhile (\<lambda>c. c \<noteq> x) (xs @ ys) = dropWhile (\<lambda>c. c \<noteq> x) ys"
  by (induction xs) auto

lemma digit_value: "isDigit c \<Longrightarrow> 0 \<le> int (of_char c) - 48"
  by (auto simp: isDigit_def)

lemma digit_plain: "isDigit c \<Longrightarrow> \<not> isSpace c \<and> c \<noteq> CHR '','' \<and> c \<noteq> CHR ''-'' \<and> c \<noteq> CHR ''+''"
  by (auto simp: isDigit_def isSpace_def)

lemma foldl_decimal_nonneg:
  "\<forall>c \<in> set ds. isDigit c \<Longrightarrow> 0 \<le> acc \<Longrightarrow>
     0 \<le> foldl (\<lambda>acc c. acc * 10 + (int (of_char c) - 48)) acc ds"
proof (induction ds arbitrary: acc)
  case Nil
  then show ?case by simp
next
  case (Cons d ds)
  have "0 \<le> acc * 10 + (int (of_char d) - 48)"
    using Cons.prems digit_value [of d] by simp
  with Cons show ?case by simp
qed

lemma decimal_nonneg: "\<forall>c \<in> set ds. isDigit c \<Longrightarrow> 0 \<le> decimal ds"
  unfolding decimal_def by (rule foldl_decimal_nonneg) simp_all

lemma Sscanf_d_digits:
  assumes "ds \<noteq> []" and "\<forall>c \<in> set ds. isDigit c" and "decimal ds < 2 ^ 63"
    and "r = [] \<or> \<not> isDigit (hd r)"
  shows "Sscanf_d (ds @ r) = decimal ds"
proof -
  have hd: "hd (ds @ r) = hd ds" "hd ds \<in> set ds" using assms(1) by simp_all
  then have plain: "\<not> isSpace (hd (ds @ r))" "hd (ds @ r) \<noteq> CHR ''-''" "hd (ds @ r) \<noteq> CHR ''+''"
    using assms(2) digit_plain [of "hd ds"] by auto
  have s1: "dropWhile (\<lambda>c. isSpace c \<and> c \<noteq> CHR 0x0A) (ds @ r) = ds @ r"
    using assms(1) plain(1) by (intro dropWhile_id) auto
  have nm: "\<not> HasPrefix (ds @ r) ''-''" and np: "\<not> HasPrefix (ds @ r) ''+''"
    using plain(2,3) by (auto dest: HasPrefix_hd)
  have "takeWhile isDigit r = []" using assms(4) by (cases r) auto
  then have tok: "takeWhile isDigit (ds @ r) = ds"
    using assms(2) by (simp add: takeWhile_append2)
  have "0 \<le> decimal ds" using assms(2) by (rule decimal_nonneg)
  then show ?thesis
    using assms(1,3) by (simp add: Sscanf_d_def Let_def s1 nm np tok)
qed

lemma extractCIDRMask_masked:
  assumes "CHR '','' \<notin> set addr" and "CHR ''/'' \<notin> set addr"
    and "ds \<noteq> []" and "\<forall>c \<in> set ds. isDigit c" and "decimal ds < 2 ^ 63"
    and "rest = [] \<or> \<not> isDigit (hd rest)"
  shows "extractCIDRMask (addr @ ''/'' @ ds @ rest) = decimal ds"
proof -
  let ?r = "takeWhile (\<lambda>c. c \<noteq> CHR '','') rest"
  have nc: "\<forall>c \<in> set ds. c \<noteq> CHR '',''" using assms(4) digit_plain by blast
  have "CHR '','' \<notin> set (addr @ ''/'' @ ds)" using assms(1) nc by auto
  then have "takeWhile (\<lambda>c. c \<noteq> CHR '','') ((addr @ ''/'' @ ds) @ rest) = (addr @ ''/'' @ ds) @ ?r"
    by (rule takeWhile_not_in)
  then have part: "takeWhile (\<lambda>c. c \<noteq> CHR '','') (addr @ ''/'' @ ds @ rest) = addr @ ''/'' @ ds @ ?r"
    by simp
  have r: "?r = [] \<or> \<not> isDigit (hd ?r)" using assms(6) by (cases rest) auto
  have drop: "drop 1 (dropWhile (\<lambda>c. c \<noteq> CHR ''/'') (addr @ ''/'' @ ds @ ?r)) = ds @ ?r"
    using dropWhile_not_in [OF assms(2), of "''/'' @ ds @ ?r"] by simp
  have slash: "Contains (addr @ ''/'' @ ds @ ?r) ''/''" by (simp add: Contains_single)
  show ?thesis
    unfolding extractCIDRMask_def Let_def Split_first part
    using slash drop Sscanf_d_digits [OF assms(3,4,5) r] by simp
qed

lemma extractCIDRMask_unmasked:
  assumes "CHR '','' \<notin> set addr" and "CHR ''/'' \<notin> set addr"
    and "opts = [] \<or> hd opts = CHR '',''"
  shows "extractCIDRMask (addr @ opts) = (if CHR '':'' \<in> set addr then 128 else 32)"
proof -
  have "takeWhile (\<lambda>c. c \<noteq> CHR '','') opts = []" using assms(3) by (cases opts) auto
  then have part: "takeWhile (\<lambda>c. c \<noteq> CHR '','') (addr @ opts) = addr"
    using takeWhile_not_in [OF assms(1), of opts] by simp
  show ?thesis
    unfolding extractCIDRMask_def Let_def Split_first part
    using assms(2) by (simp add: Contains_single)
qed

text \<open>
  The order of an IP-CIDR sequence does not depend on the sorting algorithm: every
  arrangement of the normalized entries that is sorted by \<open>cidrLess\<close> is the one
  \<open>sort_Slice\<close> gives.
\<close>

lemma cidr_order_determined:
  assumes "mset ys = mset (map normalizeCIDR rules)" and "sortedBy cidrLess ys"
  shows "ys = sort_Slice cidrLess (map normalizeCIDR rules)"
proof -
  have "sortedBy cidrLess (sort_Slice cidrLess (map normalizeCIDR rules))"
    using cidrLess_swo by (rule sort_Slice_sorted)
  moreover have "mset ys = mset (sort_Slice cidrLess (map normalizeCIDR rules))"
    using assms(1) by (simp add: sort_Slice_mset)
  ultimately show ?thesis
    using sortedBy_unique [OF cidrLess_total assms(2)] by blast
qed

text \<open>
  Claim C6. For an IP-CIDR kind, the sequence that \<open>Deduplicate\<close> leaves consists of
  the distinct entries, each normalized, ordered by mask length descending and, for
  equal masks, lexicographically. \<open>normalizeCIDR\<close> leaves an entry alone when the part
  before the first comma has a \<open>/\<close>; otherwise it puts \<open>/128\<close> behind that part when
  the part has a \<open>:\<close> and \<open>/32\<close> when not, and keeps what follows the part. The
  mask length of an entry \<open>addr/digits\<close> is the number the digits write, read up to
  the first character that is no digit: \<open>8.0.0.0/1_\<close> has mask 1 and comes before
  \<open>0.0.0.0/0\<close>. The entries are ASCII, where \<open>Sscanf_d\<close> reads the mask as Go does.
\<close>

theorem cidr_normalize_then_sort:
  assumes "mapIteration iter" and "t \<in> set cidrTypes"
    and "ruleSets opt name = Some rs" and "Rules rs t = Some rules"
    and "\<forall>r \<in> set rules. ascii r"
  shows "\<exists>rs' res. ruleSets (Deduplicate iter opt) name = Some rs' \<and> Rules rs' t = Some res
      \<and> mset res = image_mset normalizeCIDR (mset (remdups rules))
      \<and> (\<forall>i j. i < j \<and> j < length res \<longrightarrow>
            extractCIDRMask (res ! i) > extractCIDRMask (res ! j)
            \<or> (extractCIDRMask (res ! i) = extractCIDRMask (res ! j) \<and> res ! i \<le> res ! j))
      \<and> (\<forall>addr opts. CHR '','' \<notin> set addr \<and> (opts = [] \<or> hd opts = CHR '','') \<longrightarrow>
            normalizeCIDR (addr @ opts) =
              (if CHR ''/'' \<in> set addr then addr @ opts
               else if CHR '':'' \<in> set addr then addr @ ''/128'' @ opts
               else addr @ ''/32'' @ opts))
      \<and> normalizeCIDR ''1.2.3.4'' = ''1.2.3.4/32''
      \<and> normalizeCIDR ''::1'' = ''::1/128''
      \<and> normalizeCIDR ''10.0.0.0/8'' = ''10.0.0.0/8''
      \<and> (\<forall>addr ds rest. CHR '','' \<notin> set addr \<and> CHR ''/'' \<notin> set addr \<and> ds \<noteq> []
            \<and> (\<forall>c \<in> set ds. isDigit c) \<and> decimal ds < 2 ^ 63
            \<and> (rest = [] \<or> \<not> isDigit (hd rest)) \<longrightarrow>
            extractCIDRMask (addr @ ''/'' @ ds @ rest) = decimal ds)
      \<and> extractCIDRMask ''10.0.0.0/8'' = 8
      \<and> extractCIDRMask ''192.168.0.0/16,no-resolve'' = 16
      \<and> extractCIDRMask ''8.0.0.0/1_'' = 1
      \<and> dedupRules iter name t [''0.0.0.0/0'', ''8.0.0.0/1_''] = [''8.0.0.0/1_'', ''0.0.0.0/0'']"
proof -
  let ?res = "dedupRules iter name t rules"
  have res: "?res = sort_Slice cidrLess (map normalizeCIDR (iter name t rules))"
    by (simp add: dedupRules_def sortRulesByType_cidr [OF assms(2)])
  have m: "mset ?res = image_mset normalizeCIDR (mset (remdups rules))"
    by (simp add: res sort_Slice_mset iter_mset [OF assms(1)])
  have sorted: "sortedBy cidrLess ?res"
    unfolding res using cidrLess_swo by (rule sort_Slice_sorted)
  have ord: "extractCIDRMask (?res ! i) > extractCIDRMask (?res ! j)
            \<or> (extractCIDRMask (?res ! i) = extractCIDRMask (?res ! j) \<and> ?res ! i \<le> ?res ! j)"
    if "i < j" "j < length ?res" for i j
    using sortedBy_nth [OF sorted that] by (auto simp: cidrLess_def Let_def split: if_splits)
  have ex: "normalizeCIDR ''1.2.3.4'' = ''1.2.3.4/32'' \<and> normalizeCIDR ''::1'' = ''::1/128''
      \<and> normalizeCIDR ''10.0.0.0/8'' = ''10.0.0.0/8''" by code_simp
  have masks: "extractCIDRMask ''10.0.0.0/8'' = 8
      \<and> extractCIDRMask ''192.168.0.0/16,no-resolve'' = 16
      \<and> extractCIDRMask ''8.0.0.0/1_'' = 1" by code_simp
  have pair: "dedupRules iter name t [''0.0.0.0/0'', ''8.0.0.0/1_''] = [''8.0.0.0/1_'', ''0.0.0.0/0'']"
  proof -
    have a: "sort_Slice cidrLess (map normalizeCIDR [''0.0.0.0/0'', ''8.0.0.0/1_''])
               = [''8.0.0.0/1_'', ''0.0.0.0/0'']" by code_simp
    have b: "sort_Slice cidrLess (map normalizeCIDR [''8.0.0.0/1_'', ''0.0.0.0/0''])
               = [''8.0.0.0/1_'', ''0.0.0.0/0'']" by code_simp
    from iter_pair [OF assms(1), of "''0.0.0.0/0''" "''8.0.0.0/1_''" name t] a b
    show ?thesis by (auto simp: dedupRules_def sortRulesByType_cidr [OF assms(2)])
  qed
  from Deduplicate_sequence [OF assms(3,4), of iter] obtain rs' where
    rs': "ruleSets (Deduplicate iter opt) name = Some rs'" "Rules rs' t = Some ?res" by blast
  show ?thesis
  proof (intro exI conjI)
    show "ruleSets (Deduplicate iter opt) name = Some rs'" by (rule rs'(1))
    show "Rules rs' t = Some ?res" by (rule rs'(2))
    show "mset ?res = image_mset normalizeCIDR (mset (remdups rules))" by (rule m)
    show "\<forall>addr ds rest. CHR '','' \<notin> set addr \<and> CHR ''/'' \<notin> set addr \<and> ds \<noteq> []
            \<and> (\<forall>c \<in> set ds. isDigit c) \<and> decimal ds < 2 ^ 63
            \<and> (rest = [] \<or> \<not> isDigit (hd rest)) \<longrightarrow>
            extractCIDRMask (addr @ ''/'' @ ds @ rest) = decimal ds"
      using extractCIDRMask_masked by blast
    show "extractCIDRMask ''10.0.0.0/8'' = 8" using masks by blast
    show "extractCIDRMask ''192.168.0.0/16,no-resolve'' = 16" using masks by blast
    show "extractCIDRMask ''8.0.0.0/1_'' = 1" using masks by blast
    show "dedupRules iter name t [''0.0.0.0/0'', ''8.0.0.0/1_''] = [''8.0.0.0/1_'', ''0.0.0.0/0'']"
      by (rule pair)
    show "\<forall>i j. i < j \<and> j < length ?res \<longrightarrow>
            extractCIDRMask (?res ! i) > extractCIDRMask (?res ! j)
            \<or> (extractCIDRMask (?res ! i) = extractCIDRMask (?res ! j) \<and> ?res ! i \<le> ?res ! j)"
      using ord by blast
    show "\<forall>addr opts. CHR '','' \<notin> set addr \<and> (opts = [] \<or> hd opts = CHR '','') \<longrightarrow>
            normalizeCIDR (addr @ opts) =
              (if CHR ''/'' \<in> set addr then addr @ opts
               else if CHR '':'' \<in> set addr then addr @ ''/128'' @ opts
               else addr @ ''/32'' @ opts)"
      using normalizeCIDR_spec by blast
    show "normalizeCIDR ''1.2.3.4'' = ''1.2.3.4/32''" using ex by blast
    show "normalizeCIDR ''::1'' = ''::1/128''" using ex by blast
    show "normalizeCIDR ''10.0.0.0/8'' = ''10.0.0.0/8''" using ex by blast
  qed
qed

theorem cidr_normalize_then_sort_witness:
  "\<exists>rs'. ruleSets (Deduplicate firstSeen cidrOptimizer) ''lan'' = Some rs'
      \<and> Rules rs' RuleTypeIPCIDR = Some [''1.2.3.4/32'', ''192.168.0.0/16,no-resolve'', ''10.0.0.0/8'']
      \<and> map extractCIDRMask [''1.2.3.4/32'', ''192.168.0.0/16,no-resolve'', ''10.0.0.0/8''] = [32, 16, 8]
      \<and> dedupRules firstSeen ''lan'' RuleTypeIPCIDR [''0.0.0.0/0'', ''8.0.0.0/1_'']
            = [''8.0.0.0/1_'', ''0.0.0.0/0'']
      \<and> extractCIDRMask (''8.0.0.0'' @ ''/'' @ ''1'' @ ''_'') = decimal ''1''"
proof -
  have 1: "mapIteration firstSeen" by (simp add: mapIteration_def firstSeen_def)
  have 2: "RuleTypeIPCIDR \<in> set cidrTypes" by (simp add: cidrTypes_def)
  have 3: "ruleSets cidrOptimizer ''lan'' = Some \<lparr>Name = ''lan'',
         Rules = [''IP-CIDR'' \<mapsto> [''10.0.0.0/8'', ''1.2.3.4'', ''192.168.0.0/16,no-resolve'', ''1.2.3.4'']],
         Filters = [], Excludes = []\<rparr>"
    by (simp add: cidrOptimizer_def)
  have 4: "Rules \<lparr>Name = ''lan'',
         Rules = [''IP-CIDR'' \<mapsto> [''10.0.0.0/8'', ''1.2.3.4'', ''192.168.0.0/16,no-resolve'', ''1.2.3.4'']],
         Filters = [], Excludes = []\<rparr> RuleTypeIPCIDR
         = Some [''10.0.0.0/8'', ''1.2.3.4'', ''192.168.0.0/16,no-resolve'', ''1.2.3.4'']"
    by (simp add: RuleTypeIPCIDR_def)
  have 5: "dedupRules firstSeen ''lan'' RuleTypeIPCIDR
             [''10.0.0.0/8'', ''1.2.3.4'', ''192.168.0.0/16,no-resolve'', ''1.2.3.4'']
             = [''1.2.3.4/32'', ''192.168.0.0/16,no-resolve'', ''10.0.0.0/8'']" by code_simp
  have 6: "map extractCIDRMask [''1.2.3.4/32'', ''192.168.0.0/16,no-resolve'', ''10.0.0.0/8''] = [32, 16, 8]"
    by code_simp
  have 7: "\<forall>r \<in> set [''10.0.0.0/8'', ''1.2.3.4'', ''192.168.0.0/16,no-resolve'', ''1.2.3.4'']. ascii r"
    by (simp add: ascii_def)
  from cidr_normalize_then_sort [OF 1 2 3 4 7]
  have pair: "dedupRules firstSeen ''lan'' RuleTypeIPCIDR [''0.0.0.0/0'', ''8.0.0.0/1_'']
                = [''8.0.0.0/1_'', ''0.0.0.0/0'']"
    and mask: "\<forall>addr ds rest. CHR '','' \<notin> set addr \<and> CHR ''/'' \<notin> set addr \<and> ds \<noteq> []
            \<and> (\<forall>c \<in> set ds. isDigit c) \<and> decimal ds < 2 ^ 63
            \<and> (rest = [] \<or> \<not> isDigit (hd rest)) \<longrightarrow>
            extractCIDRMask (addr @ ''/'' @ ds @ rest) = decimal ds"
    by blast+
  have 8: "extractCIDRMask (''8.0.0.0'' @ ''/'' @ ''1'' @ ''_'') = decimal ''1''"
    using mask [rule_format, of "''8.0.0.0''" "''1''" "''_''"]
    by (simp add: isDigit_def decimal_def)
  from Deduplicate_sequence [OF 3 4, of firstSeen] 5 6 pair 8
  show ?thesis by auto
qed

end
